theory Spec2Isabelle
  imports Complex_Main
begin

section \<open>The pin watcher of \<^verbatim>\<open>Scripts/pin_watch.py\<close>\<close>

text \<open>
  The module holds one class, \<^verbatim>\<open>PinWatch\<close>. Its methods are embedded below, one
  definition per method, under the method's name without the leading underscore.
  Python integers are \<^typ>\<open>int\<close>; the sensor dictionary \<^verbatim>\<open>self.state\<close> is a map
  from labels to integers; the set \<^verbatim>\<open>self.t_indices\<close> is an \<^typ>\<open>int set\<close>.

  The object talks to three collaborators that are not part of the module: the reactor
  (clock and timers), the G-code interface (\<^verbatim>\<open>run_script_from_command\<close>) and the printer's
  object registry (\<^verbatim>\<open>print_stats\<close>, the tool-changer). The reactor's clock and its list of
  outstanding timers, and the list of commands handed to the G-code interface, are
  fields of the state record; what the registry answers is a parameter of every step.
  Readings of the clock are reals. Where the object computes a wake time it adds two
  Python floats; that sum is rounded, and the model leaves it open: the field
  \<open>float_add\<close> of the state record stands for the addition of the interpreter, nothing is
  assumed of it, and the properties below hold whatever it returns. Diagnostic
  output (\<^verbatim>\<open>_info\<close>, \<^verbatim>\<open>logging\<close>) never feeds back into the object and is left out, and
  with it the flag \<^verbatim>\<open>verbose\<close> and the table \<^verbatim>\<open>pin_by_label\<close> that only serve it.

  The callbacks wrap their bodies in \<^verbatim>\<open>try\<close>/\<^verbatim>\<open>except\<close>. The one call in them that can
  raise is \<^verbatim>\<open>run_script_from_command\<close>, and no field is written after it on any path, so
  the object after a callback is the same whether or not the command raised. A command
  counts as emitted once it is handed to the G-code interface.
\<close>

subsection \<open>Formatting and parsing integers\<close>

type_synonym label = string

definition digit_char :: "nat \<Rightarrow> char" where
  "digit_char d = ''0123456789'' ! d"

fun digits :: "nat \<Rightarrow> string" where
  "digits n = (if n < 10 then [digit_char n] else digits (n div 10) @ [digit_char (n mod 10)])"

declare digits.simps [simp del]

text \<open>\<^verbatim>\<open>"%d" % i\<close>\<close>

definition fmt_d :: "int \<Rightarrow> string" where
  "fmt_d i = (if i < 0 then CHR ''-'' # digits (nat (- i)) else digits (nat i))"

text \<open>
  \<^verbatim>\<open>int(s)\<close> on a string, for ASCII input: surrounding white space is dropped, one sign
  is allowed, and the digits may be grouped by single underscores. \<^verbatim>\<open>None\<close> stands for
  \<^verbatim>\<open>ValueError\<close>, which CPython 3.11 and later also raise for more than 4300 digits
  (the default of \<^verbatim>\<open>sys.int_max_str_digits\<close>); earlier versions have no such limit.
\<close>

definition is_space :: "char \<Rightarrow> bool" where
  "is_space c = (c \<in> set [CHR '' '', CHR 0x09, CHR 0x0A, CHR 0x0B, CHR 0x0C, CHR 0x0D])"

definition strip :: "string \<Rightarrow> string" where
  "strip s = rev (dropWhile is_space (rev (dropWhile is_space s)))"

definition digit_val :: "char \<Rightarrow> nat option" where
  "digit_val c = map_of (zip ''0123456789'' [0 ..< 10]) c"

fun split_underscore :: "string \<Rightarrow> string list" where
  "split_underscore [] = [[]]"
| "split_underscore (c # cs) =
     (if c = CHR ''_'' then [] # split_underscore cs
      else (case split_underscore cs of g # gs \<Rightarrow> (c # g) # gs | [] \<Rightarrow> [[c]]))"

definition parse_digits :: "string \<Rightarrow> nat option" where
  "parse_digits s =
     (let groups = split_underscore s
      in if list_all (\<lambda>g. g \<noteq> [] \<and> list_all (\<lambda>c. digit_val c \<noteq> None) g) groups \<and>
            length (concat groups) \<le> 4300
         then Some (foldl (\<lambda>acc c. 10 * acc + the (digit_val c)) 0 (concat groups))
         else None)"

definition py_int :: "string \<Rightarrow> int option" where
  "py_int s =
     (case strip s of
        c # cs \<Rightarrow>
          if c = CHR ''-'' then map_option (\<lambda>n. - int n) (parse_digits cs)
          else if c = CHR ''+'' then map_option int (parse_digits cs)
          else map_option int (parse_digits (c # cs))
      | [] \<Rightarrow> None)"

subsection \<open>The object and its collaborators\<close>

text \<open>Which bound method a reactor timer calls back.\<close>

datatype timer_kind = ComputeTimer | TcTimer

text \<open>
  The fields of \<^verbatim>\<open>self\<close>, followed by the state of the reactor and of the G-code
  interface. A timer handle is a number; \<open>reactor_timers\<close> lists the outstanding timers
  (registered, not yet fired) as handle, callback and wake time. \<open>float_add\<close> is the
  floating-point addition used for wake times; no method writes it.
\<close>

record pin_watch =
  sync_toolchanger :: bool
  assign_delay :: real
  state :: "label \<rightharpoonup> int"
  t_indices :: "int set"
  current_tool :: int
  compute_timer :: "nat option"
  pending_reason :: string
  pending_tc_ct :: "int option"
  tc_timer :: "nat option"
  reactor_now :: real
  reactor_timers :: "(nat \<times> timer_kind \<times> real) list"
  reactor_next :: nat
  float_add :: "real \<Rightarrow> real \<Rightarrow> real"
  gcode_cmds :: "string list"

text \<open>
  What the printer's registry answers at the moment of a call: the \<^verbatim>\<open>status\<close> attribute of
  the tool-changer object and the \<^verbatim>\<open>state\<close> attribute of \<^verbatim>\<open>print_stats\<close>, \<open>None\<close> when
  the object or the attribute is missing.
\<close>

record printer_env =
  tc_status :: "string option"
  print_stats_state :: "string option"

definition BUSY_STATUSES :: "string list" where
  "BUSY_STATUSES = [''changing'', ''initializing'']"

subsection \<open>The reactor\<close>

definition register_timer :: "timer_kind \<Rightarrow> real \<Rightarrow> pin_watch \<Rightarrow> nat \<times> pin_watch" where
  "register_timer cb waketime w =
     (reactor_next w,
      w\<lparr>reactor_timers := reactor_timers w @ [(reactor_next w, cb, waketime)],
        reactor_next := Suc (reactor_next w)\<rparr>)"

definition unregister_timer :: "nat \<Rightarrow> pin_watch \<Rightarrow> pin_watch" where
  "unregister_timer h w = w\<lparr>reactor_timers := filter (\<lambda>t. fst t \<noteq> h) (reactor_timers w)\<rparr>"

subsection \<open>Tool count and inference\<close>

definition parse_t_index :: "label \<Rightarrow> int option" where
  "parse_t_index l = (case l of c # cs \<Rightarrow> if c = CHR ''t'' then py_int cs else None | [] \<Rightarrow> None)"

definition tool_count :: "pin_watch \<Rightarrow> int" where
  "tool_count w = (if t_indices w = {} then 0 else Max (t_indices w) + 1)"

text \<open>\<^verbatim>\<open>self.state.get(l, 0)\<close>\<close>

definition state_get :: "(label \<rightharpoonup> int) \<Rightarrow> label \<Rightarrow> int" where
  "state_get st l = (case st l of None \<Rightarrow> 0 | Some v \<Rightarrow> v)"

text \<open>
  One round of the loop over the bays; the accumulator is
  \<^verbatim>\<open>(bad, S, empties, empty_idx)\<close>.
\<close>

definition bay_step :: "(label \<rightharpoonup> int) \<Rightarrow> int \<Rightarrow> int \<times> int \<times> int \<times> int \<Rightarrow> int \<times> int \<times> int \<times> int" where
  "bay_step st i acc =
     (case acc of (bad, S, empties, empty_idx) \<Rightarrow>
        let occ = state_get st (''t'' @ fmt_d i);
            bad' = (if occ \<notin> {0, 1} then 1 else bad);
            S' = S + occ
        in if occ = 0 then (bad', S', empties + 1, i) else (bad', S', empties, empty_idx))"

definition bay_loop :: "(label \<rightharpoonup> int) \<Rightarrow> int \<Rightarrow> int \<Rightarrow> int \<times> int \<times> int \<times> int" where
  "bay_loop st N bad = fold (bay_step st) (map int [0 ..< nat N]) (bad, 0, 0, - 1)"

type_synonym diag = "int \<times> int option \<times> int option \<times> int option \<times> int"

definition compute_current_tool :: "pin_watch \<Rightarrow> int \<times> diag" where
  "compute_current_tool w =
     (let N = tool_count w
      in if N < 1 then (- 2, (N, None, None, None, 1))
         else
           let ex = state_get (state w) ''e'';
               bad0 = (if ex \<notin> {0, 1} then 1 else 0)
           in (case bay_loop (state w) N bad0 of (bad, S, empties, empty_idx) \<Rightarrow>
                 let ct = (if bad = 1 then - 2
                           else if ex = 0 \<and> S = N then - 1
                           else if ex = 1 \<and> S = N - 1 \<and> empties = 1 then empty_idx
                           else - 2)
                 in (ct, (N, Some ex, Some S, Some empties, bad))))"

subsection \<open>Scheduling the recomputation\<close>

definition schedule_compute :: "string \<Rightarrow> real \<Rightarrow> pin_watch \<Rightarrow> pin_watch" where
  "schedule_compute reason delay w =
     (let w1 = w\<lparr>pending_reason := reason\<rparr>;
          w2 = (case compute_timer w1 of
                  None \<Rightarrow> w1
                | Some h \<Rightarrow> (unregister_timer h w1)\<lparr>compute_timer := None\<rparr>);
          when = float_add w2 (reactor_now w2) (max 0 delay);
          (h', w3) = register_timer ComputeTimer when w2
      in w3\<lparr>compute_timer := Some h'\<rparr>)"

text \<open>
  The callback that \<^verbatim>\<open>_make_callback(label)\<close> returns, called by the button watcher with
  the time of the event and the new level.
\<close>

definition cb :: "label \<Rightarrow> real \<Rightarrow> int \<Rightarrow> pin_watch \<Rightarrow> pin_watch" where
  "cb l eventtime s w =
     (if state w l = Some s then w
      else schedule_compute l (assign_delay w) (w\<lparr>state := (state w)(l \<mapsto> s)\<rparr>))"

subsection \<open>Tool-changer synchronisation\<close>

definition toolchanger_busy :: "printer_env \<Rightarrow> bool" where
  "toolchanger_busy env = (case tc_status env of None \<Rightarrow> False | Some st \<Rightarrow> st \<in> set BUSY_STATUSES)"

definition is_printing :: "printer_env \<Rightarrow> bool" where
  "is_printing env = ((case print_stats_state env of None \<Rightarrow> [] | Some st \<Rightarrow> st) = ''printing'')"

definition run_cmd :: "string \<Rightarrow> pin_watch \<Rightarrow> pin_watch" where
  "run_cmd line w = w\<lparr>gcode_cmds := gcode_cmds w @ [line]\<rparr>"

definition do_toolchanger_sync :: "int \<Rightarrow> pin_watch \<Rightarrow> pin_watch" where
  "do_toolchanger_sync ct w =
     (if ct \<ge> 0 then run_cmd (''INITIALIZE_TOOLCHANGER T='' @ fmt_d ct) w
      else run_cmd ''UNSELECT_TOOL'' w)"

definition sync_toolchanger_or_defer :: "printer_env \<Rightarrow> int \<Rightarrow> pin_watch \<Rightarrow> pin_watch" where
  "sync_toolchanger_or_defer env ct w =
     (if toolchanger_busy env then
        let w1 = w\<lparr>pending_tc_ct := Some ct\<rparr>
        in (case tc_timer w1 of
              None \<Rightarrow>
                let when = float_add w1 (reactor_now w1) (1 / 10);
                    (h, w2) = register_timer TcTimer when w1
                in w2\<lparr>tc_timer := Some h\<rparr>
            | Some _ \<Rightarrow> w1)
      else do_toolchanger_sync ct w)"

definition request_toolchanger_sync :: "printer_env \<Rightarrow> int \<Rightarrow> pin_watch \<Rightarrow> pin_watch" where
  "request_toolchanger_sync env ct w =
     (if is_printing env then
        (if ct \<ge> 0 then sync_toolchanger_or_defer env ct w else w)
      else sync_toolchanger_or_defer env ct w)"

text \<open>
  The two timer callbacks. Both return \<^verbatim>\<open>reactor.NEVER\<close> on every path, so the reactor
  never re-arms the timer it has just fired; a new timer is registered instead.
\<close>

definition tc_timer_cb :: "printer_env \<Rightarrow> real \<Rightarrow> pin_watch \<Rightarrow> pin_watch" where
  "tc_timer_cb env eventtime w =
     (let w1 = w\<lparr>tc_timer := None\<rparr>
      in (case pending_tc_ct w1 of
            None \<Rightarrow> w1
          | Some ct \<Rightarrow>
              if toolchanger_busy env then
                let when = float_add w1 (reactor_now w1) (1 / 10);
                    (h, w2) = register_timer TcTimer when w1
                in w2\<lparr>tc_timer := Some h\<rparr>
              else do_toolchanger_sync ct (w1\<lparr>pending_tc_ct := None\<rparr>)))"

definition compute_timer_cb :: "printer_env \<Rightarrow> real \<Rightarrow> pin_watch \<Rightarrow> pin_watch" where
  "compute_timer_cb env eventtime w =
     (let w1 = w\<lparr>compute_timer := None\<rparr>;
          (ct, dbg) = compute_current_tool w1;
          w2 = w1\<lparr>current_tool := ct\<rparr>
      in if sync_toolchanger w2 then request_toolchanger_sync env (current_tool w2) w2 else w2)"

subsection \<open>Status export\<close>

text \<open>The method returns the dictionary and, as every method here, the object after the call.\<close>

definition get_status :: "real \<Rightarrow> pin_watch \<Rightarrow> (string \<times> int) list \<times> pin_watch" where
  "get_status eventtime w = ([(''current_tool'', current_tool w)], w)"

subsection \<open>Construction\<close>

text \<open>
  The configuration section: the values of \<^verbatim>\<open>sync_toolchanger\<close> and \<^verbatim>\<open>assign_delay\<close> after
  \<^verbatim>\<open>int\<close> and \<^verbatim>\<open>float\<close>, and the options of the section in file order, each a name and a
  value.
\<close>

record config =
  cfg_sync_toolchanger :: int
  cfg_assign_delay :: real
  cfg_options :: "(string \<times> string) list"

datatype config_error = ConfigError string

definition startswith :: "string \<Rightarrow> string \<Rightarrow> bool" where
  "startswith s p = (take (length p) s = p)"

definition get_prefix_options :: "string \<Rightarrow> config \<Rightarrow> string list" where
  "get_prefix_options p cfg = filter (\<lambda>opt. startswith opt p) (map fst (cfg_options cfg))"

text \<open>
  One round of the loop over the \<^verbatim>\<open>pin_\<close> options. The registration of the callback
  with the button watcher shows in the executions below as the \<open>Edge\<close> events.
\<close>

definition add_pin :: "string \<Rightarrow> pin_watch \<Rightarrow> pin_watch" where
  "add_pin opt w =
     (let l = drop (length ''pin_'') opt;
          w1 = (if state w l = None then w\<lparr>state := (state w)(l \<mapsto> 0)\<rparr> else w)
      in (case parse_t_index l of
            None \<Rightarrow> w1
          | Some ti \<Rightarrow> w1\<lparr>t_indices := insert ti (t_indices w1)\<rparr>))"

text \<open>\<^verbatim>\<open>__init__\<close>, on a reactor whose clock shows \<open>t0\<close> and that holds no timer of this object.\<close>

definition init :: "(real \<Rightarrow> real \<Rightarrow> real) \<Rightarrow> config \<Rightarrow> real \<Rightarrow> config_error + pin_watch" where
  "init add cfg t0 =
     (let w0 = \<lparr>sync_toolchanger = (cfg_sync_toolchanger cfg \<noteq> 0),
                assign_delay = cfg_assign_delay cfg,
                state = Map.empty,
                t_indices = {},
                current_tool = - 2,
                compute_timer = None,
                pending_reason = ''startup'',
                pending_tc_ct = None,
                tc_timer = None,
                reactor_now = t0,
                reactor_timers = [],
                reactor_next = 0,
                float_add = add,
                gcode_cmds = []\<rparr>;
          opts = get_prefix_options ''pin_'' cfg
      in if opts = [] then Inl (ConfigError ''pin_watch: no pins found. Add pin_<name>: <pin> options.'')
         else Inr (schedule_compute ''startup'' 0 (fold add_pin opts w0)))"

subsection \<open>Executions\<close>

text \<open>
  The object runs on one thread, one callback at a time. An execution is a list of
  events, each with what the registry answers while it is handled: the button watcher
  delivers a level for a label, the reactor fires a timer, or time passes. The reactor
  fires a timer only when it is outstanding and its wake time has come; firing takes
  it off the list of outstanding timers and calls its callback. An event that cannot
  happen (a timer that is not due, a negative lapse of time) changes nothing.
\<close>

datatype event = Edge label int | Fire nat | Tick real

definition due :: "nat \<Rightarrow> pin_watch \<Rightarrow> timer_kind option" where
  "due h w =
     (case find (\<lambda>t. fst t = h) (reactor_timers w) of
        None \<Rightarrow> None
      | Some (_, k, waketime) \<Rightarrow> if waketime \<le> reactor_now w then Some k else None)"

fun step :: "printer_env \<Rightarrow> event \<Rightarrow> pin_watch \<Rightarrow> pin_watch" where
  "step env (Edge l s) w = cb l (reactor_now w) s w"
| "step env (Fire h) w =
     (case due h w of
        None \<Rightarrow> w
      | Some ComputeTimer \<Rightarrow> compute_timer_cb env (reactor_now w) (unregister_timer h w)
      | Some TcTimer \<Rightarrow> tc_timer_cb env (reactor_now w) (unregister_timer h w))"
| "step env (Tick d) w = (if 0 \<le> d then w\<lparr>reactor_now := reactor_now w + d\<rparr> else w)"

fun run :: "pin_watch \<Rightarrow> (printer_env \<times> event) list \<Rightarrow> pin_watch" where
  "run w [] = w"
| "run w ((env, ev) # evs) = run (step env ev w) evs"

text \<open>The number of inference passes in an execution: the firings of the compute timer.\<close>

definition fires :: "timer_kind \<Rightarrow> event \<Rightarrow> pin_watch \<Rightarrow> bool" where
  "fires k ev w = (case ev of Fire h \<Rightarrow> due h w = Some k | _ \<Rightarrow> False)"

fun compute_passes :: "pin_watch \<Rightarrow> (printer_env \<times> event) list \<Rightarrow> nat" where
  "compute_passes w [] = 0"
| "compute_passes w ((env, ev) # evs) =
     (if fires ComputeTimer ev w then 1 else 0) + compute_passes (step env ev w) evs"

text \<open>The outstanding timers of one kind, by handle.\<close>

definition armed :: "timer_kind \<Rightarrow> pin_watch \<Rightarrow> nat list" where
  "armed k w = map fst (filter (\<lambda>t. fst (snd t) = k) (reactor_timers w))"

subsection \<open>The decision table of the specification\<close>

text \<open>
  This definition is not taken from the code. It writes down the decision table of the
  specification for a snapshot \<open>st\<close> and a tool count \<open>N\<close>: bay \<open>i\<close> reads the value
  stored under \<^verbatim>\<open>t<i>\<close>, absent sensors read 0, \<open>S\<close> is the sum of the bay values.
\<close>

definition decision_table :: "(label \<rightharpoonup> int) \<Rightarrow> int \<Rightarrow> int" where
  "decision_table st N =
     (let ex = state_get st ''e'';
          bays = map int [0 ..< nat N];
          occ = (\<lambda>i. state_get st (''t'' @ fmt_d i));
          S = sum_list (map occ bays);
          empty_bays = filter (\<lambda>i. occ i = 0) bays
      in if N < 1 then - 2
         else if ex \<notin> {0, 1} \<or> (\<exists>i \<in> set bays. occ i \<notin> {0, 1}) then - 2
         else if ex = 0 \<and> S = N then - 1
         else if ex = 1 \<and> S = N - 1 \<and> length empty_bays = 1 then hd empty_bays
         else - 2)"

subsection \<open>Example inputs\<close>

text \<open>
  A watcher of three bays holding tool 1: the engagement sensor and the bays 0 and 2
  read 1, bay 1 reads 0. In the examples \<open>float_add\<close> is the exact sum; the executions
  built on them add only numbers whose floating-point sum is exact (a summand 0, a
  number added to itself, or multiples of a quarter).
\<close>

definition example_watch :: pin_watch where
  "example_watch =
     \<lparr>sync_toolchanger = True, assign_delay = 0,
      state = [''e'' \<mapsto> 1, ''t0'' \<mapsto> 1, ''t1'' \<mapsto> 0, ''t2'' \<mapsto> 1],
      t_indices = {0, 1, 2}, current_tool = - 2, compute_timer = None,
      pending_reason = ''startup'', pending_tc_ct = None, tc_timer = None,
      reactor_now = 0, reactor_timers = [], reactor_next = 0, float_add = (+),
      gcode_cmds = []\<rparr>"

text \<open>The same watcher with two more entries in its store, under labels that name no bay.\<close>

definition example_watch_extra :: pin_watch where
  "example_watch_extra = example_watch\<lparr>state := (state example_watch)(''x'' \<mapsto> 7, ''t5'' \<mapsto> 9)\<rparr>"

text \<open>
  A section with the engagement sensor and one bay, and the watcher that \<^verbatim>\<open>__init__\<close>
  makes of it at time 0, with the start-up recomputation scheduled as timer 0.
\<close>

definition config_one_bay :: "real \<Rightarrow> config" where
  "config_one_bay d =
     \<lparr>cfg_sync_toolchanger = 1, cfg_assign_delay = d,
      cfg_options = [(''toolchanger'', ''toolchanger''), (''pin_e'', ''PA1''), (''pin_t0'', ''PA2'')]\<rparr>"

definition one_bay :: "real \<Rightarrow> pin_watch" where
  "one_bay d =
     \<lparr>sync_toolchanger = True, assign_delay = d,
      state = [''e'' \<mapsto> 0, ''t0'' \<mapsto> 0],
      t_indices = {0}, current_tool = - 2, compute_timer = Some 0,
      pending_reason = ''startup'', pending_tc_ct = None, tc_timer = None,
      reactor_now = 0, reactor_timers = [(0, ComputeTimer, 0)], reactor_next = 1,
      float_add = (+), gcode_cmds = []\<rparr>"

text \<open>A section without any sensor.\<close>

definition config_no_pin :: config where
  "config_no_pin =
     \<lparr>cfg_sync_toolchanger = 1, cfg_assign_delay = 0,
      cfg_options = [(''toolchanger'', ''toolchanger''), (''verbose'', ''1'')]\<rparr>"

text \<open>A registry in which the tool-changer has status \<open>tc\<close> and \<^verbatim>\<open>print_stats\<close> has state \<open>ps\<close>.\<close>

definition env_of :: "string \<Rightarrow> string \<Rightarrow> printer_env" where
  "env_of tc ps = \<lparr>tc_status = Some tc, print_stats_state = Some ps\<rparr>"

text \<open>The tool-changer in the middle of a change, and ready; nothing is printing in either.\<close>

definition busy_env :: printer_env where
  "busy_env = env_of ''changing'' ''standby''"

definition idle_env :: printer_env where
  "idle_env = env_of ''ready'' ''standby''"

text \<open>The same two with a print running.\<close>

definition printing_env :: printer_env where
  "printing_env = env_of ''ready'' ''printing''"

definition printing_busy_env :: printer_env where
  "printing_busy_env = env_of ''changing'' ''printing''"

subsection \<open>Bursts of edges\<close>

text \<open>
  \<open>burst w el evs\<close> is the burst in the words of the specification: in the events
  \<open>evs\<close>, run from \<open>w\<close> with \<open>el\<close> seconds gone on the clock since the edge before,
  every edge comes less than \<open>assign_delay\<close> after the edge before it, and time does not
  run backwards.
\<close>

fun burst :: "pin_watch \<Rightarrow> real \<Rightarrow> (printer_env \<times> event) list \<Rightarrow> bool" where
  "burst w el [] = True"
| "burst w el ((env, Edge l s) # evs) = (el < assign_delay w \<and> burst (step env (Edge l s) w) 0 evs)"
| "burst w el ((env, Tick d) # evs) = (0 \<le> d \<and> burst (step env (Tick d) w) (el + d) evs)"
| "burst w el ((env, Fire h) # evs) = burst (step env (Fire h) w) el evs"

text \<open>
  The wake time of the recompute timer whose handle the object holds, and whether it
  still lies ahead of the clock.
\<close>

definition pending_wake :: "pin_watch \<Rightarrow> real option" where
  "pending_wake w =
     (case compute_timer w of
        None \<Rightarrow> None
      | Some h \<Rightarrow> map_option (\<lambda>t. snd (snd t)) (find (\<lambda>t. fst t = h) (reactor_timers w)))"

definition wake_ahead :: "pin_watch \<Rightarrow> bool" where
  "wake_ahead w = (case pending_wake w of None \<Rightarrow> False | Some waketime \<Rightarrow> reactor_now w < waketime)"

text \<open>
  \<open>before_due w evs\<close>: in the events \<open>evs\<close>, run from \<open>w\<close>, every edge that changes the
  stored level arrives while the recompute timer armed by the change before it is
  outstanding and not yet due, and time does not run backwards. Edges that repeat the
  stored level may come at any time. \<open>last_change t w evs\<close> is the reading of the clock
  at the last edge of \<open>evs\<close> that changes the stored level, and \<open>t\<close> if there is none.
\<close>

fun before_due :: "pin_watch \<Rightarrow> (printer_env \<times> event) list \<Rightarrow> bool" where
  "before_due w [] = True"
| "before_due w ((env, Edge l s) # evs) =
     ((state w l = Some s \<or> wake_ahead w) \<and> before_due (step env (Edge l s) w) evs)"
| "before_due w ((env, Tick d) # evs) = (0 \<le> d \<and> before_due (step env (Tick d) w) evs)"
| "before_due w ((env, Fire h) # evs) = before_due (step env (Fire h) w) evs"

fun last_change :: "real \<Rightarrow> pin_watch \<Rightarrow> (printer_env \<times> event) list \<Rightarrow> real" where
  "last_change t w [] = t"
| "last_change t w ((env, Edge l s) # evs) =
     last_change (if state w l = Some s then t else reactor_now w) (step env (Edge l s) w) evs"
| "last_change t w ((env, Tick d) # evs) = last_change t (step env (Tick d) w) evs"
| "last_change t w ((env, Fire h) # evs) = last_change t (step env (Fire h) w) evs"

subsection \<open>Invariants\<close>

text \<open>The cached tool is Unknown, Unmounted or the index of a bay.\<close>

definition tool_in_range :: "pin_watch \<Rightarrow> bool" where
  "tool_in_range w =
     (current_tool w = - 2 \<or> current_tool w = - 1 \<or> (0 \<le> current_tool w \<and> current_tool w < tool_count w))"

text \<open>The two forms of command.\<close>

definition known_command :: "string \<Rightarrow> bool" where
  "known_command c = (c = ''UNSELECT_TOOL'' \<or> (\<exists>n \<ge> 0. c = ''INITIALIZE_TOOLCHANGER T='' @ fmt_d n))"

text \<open>
  The reactor holds the outstanding timers the object knows of and no others: the
  outstanding timers of each kind are the handle stored for that kind, if any; handles
  are not shared, and the next handle is fresh. \<open>timers_rel\<close> states this for given
  handles, \<open>timers_inv\<close> for the handles stored in the object.
\<close>

definition handles :: "nat option \<Rightarrow> nat list" where
  "handles h = (case h of None \<Rightarrow> [] | Some x \<Rightarrow> [x])"

definition timers_rel :: "nat option \<Rightarrow> nat option \<Rightarrow> pin_watch \<Rightarrow> bool" where
  "timers_rel c t w =
     (armed ComputeTimer w = handles c \<and> armed TcTimer w = handles t \<and>
      distinct (map fst (reactor_timers w)) \<and>
      (\<forall>x \<in> set (reactor_timers w). fst x < reactor_next w))"

definition timers_inv :: "pin_watch \<Rightarrow> bool" where
  "timers_inv w = timers_rel (compute_timer w) (tc_timer w) w"

text \<open>
  The two phases of a burst. \<open>waiting w t\<close>: a recompute timer is outstanding, set to
  the floating-point sum of \<open>t\<close>, the reading of the clock at the last change, and the
  delay. \<open>settled\<close>: the pass has run, no recompute timer is outstanding and the cached
  tool is the inference on the store.
\<close>

definition waiting :: "pin_watch \<Rightarrow> real \<Rightarrow> bool" where
  "waiting w t =
     (timers_inv w \<and>
      (\<exists>h. compute_timer w = Some h \<and>
         (h, ComputeTimer, float_add w t (max 0 (assign_delay w))) \<in> set (reactor_timers w)))"

definition settled :: "pin_watch \<Rightarrow> bool" where
  "settled w =
     (timers_inv w \<and> compute_timer w = None \<and> current_tool w = fst (compute_current_tool w))"

section \<open>Properties\<close>

subsection \<open>What each method leaves alone\<close>

lemma schedule_compute_frame [simp]:
  "state (schedule_compute r d w) = state w"
  "t_indices (schedule_compute r d w) = t_indices w"
  "current_tool (schedule_compute r d w) = current_tool w"
  "pending_tc_ct (schedule_compute r d w) = pending_tc_ct w"
  "tc_timer (schedule_compute r d w) = tc_timer w"
  "gcode_cmds (schedule_compute r d w) = gcode_cmds w"
  "reactor_now (schedule_compute r d w) = reactor_now w"
  "sync_toolchanger (schedule_compute r d w) = sync_toolchanger w"
  "assign_delay (schedule_compute r d w) = assign_delay w"
  "float_add (schedule_compute r d w) = float_add w"
  by (simp_all add: schedule_compute_def register_timer_def unregister_timer_def Let_def
      split: option.splits)

lemma cb_frame [simp]:
  "t_indices (cb l t s w) = t_indices w"
  "current_tool (cb l t s w) = current_tool w"
  "pending_tc_ct (cb l t s w) = pending_tc_ct w"
  "tc_timer (cb l t s w) = tc_timer w"
  "gcode_cmds (cb l t s w) = gcode_cmds w"
  "reactor_now (cb l t s w) = reactor_now w"
  "sync_toolchanger (cb l t s w) = sync_toolchanger w"
  "assign_delay (cb l t s w) = assign_delay w"
  "float_add (cb l t s w) = float_add w"
  by (simp_all add: cb_def)

lemma cb_state [simp]: "state (cb l t s w) = (state w)(l \<mapsto> s)"
  by (auto simp: cb_def)

lemma do_toolchanger_sync_frame [simp]:
  "state (do_toolchanger_sync ct w) = state w"
  "t_indices (do_toolchanger_sync ct w) = t_indices w"
  "current_tool (do_toolchanger_sync ct w) = current_tool w"
  "pending_tc_ct (do_toolchanger_sync ct w) = pending_tc_ct w"
  "tc_timer (do_toolchanger_sync ct w) = tc_timer w"
  "compute_timer (do_toolchanger_sync ct w) = compute_timer w"
  "reactor_timers (do_toolchanger_sync ct w) = reactor_timers w"
  "reactor_next (do_toolchanger_sync ct w) = reactor_next w"
  "reactor_now (do_toolchanger_sync ct w) = reactor_now w"
  "sync_toolchanger (do_toolchanger_sync ct w) = sync_toolchanger w"
  "assign_delay (do_toolchanger_sync ct w) = assign_delay w"
  "float_add (do_toolchanger_sync ct w) = float_add w"
  by (simp_all add: do_toolchanger_sync_def run_cmd_def)

lemma sync_toolchanger_or_defer_frame [simp]:
  "state (sync_toolchanger_or_defer env ct w) = state w"
  "t_indices (sync_toolchanger_or_defer env ct w) = t_indices w"
  "current_tool (sync_toolchanger_or_defer env ct w) = current_tool w"
  "compute_timer (sync_toolchanger_or_defer env ct w) = compute_timer w"
  "reactor_now (sync_toolchanger_or_defer env ct w) = reactor_now w"
  "sync_toolchanger (sync_toolchanger_or_defer env ct w) = sync_toolchanger w"
  "assign_delay (sync_toolchanger_or_defer env ct w) = assign_delay w"
  "float_add (sync_toolchanger_or_defer env ct w) = float_add w"
  by (simp_all add: sync_toolchanger_or_defer_def register_timer_def Let_def split: option.splits)

lemma request_toolchanger_sync_frame [simp]:
  "state (request_toolchanger_sync env ct w) = state w"
  "t_indices (request_toolchanger_sync env ct w) = t_indices w"
  "current_tool (request_toolchanger_sync env ct w) = current_tool w"
  "compute_timer (request_toolchanger_sync env ct w) = compute_timer w"
  "reactor_now (request_toolchanger_sync env ct w) = reactor_now w"
  "sync_toolchanger (request_toolchanger_sync env ct w) = sync_toolchanger w"
  "assign_delay (request_toolchanger_sync env ct w) = assign_delay w"
  "float_add (request_toolchanger_sync env ct w) = float_add w"
  by (simp_all add: request_toolchanger_sync_def)

lemma tc_timer_cb_frame [simp]:
  "state (tc_timer_cb env t w) = state w"
  "t_indices (tc_timer_cb env t w) = t_indices w"
  "current_tool (tc_timer_cb env t w) = current_tool w"
  "compute_timer (tc_timer_cb env t w) = compute_timer w"
  "reactor_now (tc_timer_cb env t w) = reactor_now w"
  "sync_toolchanger (tc_timer_cb env t w) = sync_toolchanger w"
  "assign_delay (tc_timer_cb env t w) = assign_delay w"
  "float_add (tc_timer_cb env t w) = float_add w"
  by (simp_all add: tc_timer_cb_def register_timer_def Let_def split: option.splits)

lemma compute_current_tool_cong:
  assumes "state w' = state w" and "t_indices w' = t_indices w"
  shows "compute_current_tool w' = compute_current_tool w"
  unfolding compute_current_tool_def tool_count_def assms ..

lemma compute_timer_cb_frame [simp]:
  "state (compute_timer_cb env t w) = state w"
  "t_indices (compute_timer_cb env t w) = t_indices w"
  "compute_timer (compute_timer_cb env t w) = None"
  "reactor_now (compute_timer_cb env t w) = reactor_now w"
  "sync_toolchanger (compute_timer_cb env t w) = sync_toolchanger w"
  "assign_delay (compute_timer_cb env t w) = assign_delay w"
  "float_add (compute_timer_cb env t w) = float_add w"
  by (simp_all add: compute_timer_cb_def Let_def split: prod.splits)

lemma compute_timer_cb_current_tool [simp]:
  "current_tool (compute_timer_cb env t w) = fst (compute_current_tool w)"
  by (simp add: compute_timer_cb_def Let_def compute_current_tool_cong [of "w\<lparr>compute_timer := None\<rparr>" w]
      split: prod.splits)

lemma unregister_timer_frame [simp]:
  "state (unregister_timer h w) = state w"
  "t_indices (unregister_timer h w) = t_indices w"
  "current_tool (unregister_timer h w) = current_tool w"
  "pending_tc_ct (unregister_timer h w) = pending_tc_ct w"
  "tc_timer (unregister_timer h w) = tc_timer w"
  "compute_timer (unregister_timer h w) = compute_timer w"
  "gcode_cmds (unregister_timer h w) = gcode_cmds w"
  "reactor_now (unregister_timer h w) = reactor_now w"
  "reactor_next (unregister_timer h w) = reactor_next w"
  "sync_toolchanger (unregister_timer h w) = sync_toolchanger w"
  "assign_delay (unregister_timer h w) = assign_delay w"
  "float_add (unregister_timer h w) = float_add w"
  by (simp_all add: unregister_timer_def)

subsection \<open>The inference\<close>

text \<open>What the loop over the bays has accumulated after \<open>n\<close> rounds.\<close>

lemma bay_loop_fold:
  "fold (bay_step st) (map int [0 ..< n]) (bad, 0, 0, - 1) =
     (if \<exists>i \<in> set (map int [0 ..< n]). state_get st (''t'' @ fmt_d i) \<notin> {0, 1} then 1 else bad,
      sum_list (map (\<lambda>i. state_get st (''t'' @ fmt_d i)) (map int [0 ..< n])),
      int (length (filter (\<lambda>i. state_get st (''t'' @ fmt_d i) = 0) (map int [0 ..< n]))),
      if filter (\<lambda>i. state_get st (''t'' @ fmt_d i) = 0) (map int [0 ..< n]) = [] then - 1
      else last (filter (\<lambda>i. state_get st (''t'' @ fmt_d i) = 0) (map int [0 ..< n])))"
proof (induction n)
  case 0
  show ?case by simp
next
  case (Suc n)
  show ?case
    unfolding upt_Suc_append [OF le0] map_append fold_append comp_def Suc
    by (auto simp: bay_step_def Let_def)
qed

lemma single_hd_last: "length xs = 1 \<Longrightarrow> last xs = hd xs"
  by (cases xs) auto

lemma compute_current_tool_fst:
  "fst (compute_current_tool w) =
     (if tool_count w < 1 then - 2
      else case bay_loop (state w) (tool_count w)
                  (if state_get (state w) ''e'' \<notin> {0, 1} then 1 else 0) of
        (bad, S, empties, empty_idx) \<Rightarrow>
          if bad = 1 then - 2
          else if state_get (state w) ''e'' = 0 \<and> S = tool_count w then - 1
          else if state_get (state w) ''e'' = 1 \<and> S = tool_count w - 1 \<and> empties = 1 then empty_idx
          else - 2)"
  by (simp add: compute_current_tool_def Let_def split: prod.splits)

text \<open>
  Claim C1. For every sensor snapshot and tool count, the inferred tool is the one the
  decision table gives: Unknown (-2) when \<open>N < 1\<close> or when a value that is read lies
  outside 0 and 1; otherwise Unmounted (-1) when the engagement sensor reads 0 and the
  bay values sum to \<open>N\<close>; otherwise the index of the empty bay when the engagement sensor
  reads 1, the sum is \<open>N - 1\<close> and exactly one bay reads 0; Unknown in every other case.
  Absent sensors read 0.
\<close>

theorem compute_current_tool_decision_table:
  "fst (compute_current_tool w) = decision_table (state w) (tool_count w)"
proof -
  define N where "N = tool_count w"
  define occ where "occ = (\<lambda>i. state_get (state w) (''t'' @ fmt_d i))"
  define bays where "bays = map int [0 ..< nat N]"
  define em where "em = filter (\<lambda>i. occ i = 0) bays"
  define ex where "ex = state_get (state w) ''e''"
  have loop: "bay_loop (state w) N b =
      (if \<exists>i \<in> set bays. occ i \<notin> {0, 1} then 1 else b,
       sum_list (map occ bays), int (length em), if em = [] then - 1 else last em)" for b
    unfolding bay_loop_def bay_loop_fold occ_def bays_def em_def ..
  have tab: "decision_table (state w) N =
      (if N < 1 then - 2
       else if ex \<notin> {0, 1} \<or> (\<exists>i \<in> set bays. occ i \<notin> {0, 1}) then - 2
       else if ex = 0 \<and> sum_list (map occ bays) = N then - 1
       else if ex = 1 \<and> sum_list (map occ bays) = N - 1 \<and> length em = 1 then hd em
       else - 2)"
    unfolding decision_table_def Let_def occ_def bays_def em_def ex_def ..
  have one: "last em = hd em" if "length em = 1"
    using that by (rule single_hd_last)
  show ?thesis
    unfolding compute_current_tool_fst N_def [symmetric] ex_def [symmetric] tab loop
    by (cases "em = []") (auto simp: one)
qed

lemma example_tool_count: "tool_count example_watch = 3"
  by (simp add: tool_count_def example_watch_def)

lemma example_state:
  "state example_watch = [''e'' \<mapsto> 1, ''t0'' \<mapsto> 1, ''t1'' \<mapsto> 0, ''t2'' \<mapsto> 1]"
  by (simp add: example_watch_def)

lemma upt_3: "map int [0 ..< 3] = [0, 1, 2]"
  by (simp add: upt_rec)

lemma fmt_d_small: "fmt_d 0 = ''0''" "fmt_d 1 = ''1''" "fmt_d 2 = ''2''"
  by (simp_all add: fmt_d_def digits.simps digit_char_def)

lemma example_inferred: "fst (compute_current_tool example_watch) = 1"
  by (simp add: compute_current_tool_def example_tool_count bay_loop_def upt_3 bay_step_def
      state_get_def example_state fmt_d_small Let_def)

theorem compute_current_tool_decision_table_witness:
  "decision_table (state example_watch) (tool_count example_watch) = 1"
  using compute_current_tool_decision_table [of example_watch] by (simp add: example_inferred)

text \<open>
  Claim C10. Stored values under other labels never reach the inference: two watchers
  with the same bay indices whose stores read the same under \<^verbatim>\<open>e\<close> and under
  \<^verbatim>\<open>t0\<close> to \<^verbatim>\<open>t(N-1)\<close> get the same inferred tool and the same diagnostics, whatever
  else the stores hold.
\<close>

theorem compute_current_tool_noninterference:
  assumes "t_indices w1 = t_indices w2"
    and "state_get (state w1) ''e'' = state_get (state w2) ''e''"
    and "\<forall>i. 0 \<le> i \<and> i < tool_count w1 \<longrightarrow>
           state_get (state w1) (''t'' @ fmt_d i) = state_get (state w2) (''t'' @ fmt_d i)"
  shows "compute_current_tool w1 = compute_current_tool w2"
proof -
  have N: "tool_count w1 = tool_count w2"
    using assms(1) by (simp add: tool_count_def)
  have "bay_step (state w1) i acc = bay_step (state w2) i acc"
    if "i \<in> set (map int [0 ..< nat (tool_count w1)])" for i acc
    using that assms(3) by (auto simp: bay_step_def)
  then have "bay_loop (state w1) (tool_count w1) b = bay_loop (state w2) (tool_count w1) b" for b
    unfolding bay_loop_def by (intro fold_cong) auto
  then have "bay_loop (state w1) (tool_count w2) b = bay_loop (state w2) (tool_count w2) b" for b
    by (simp add: N)
  then show ?thesis
    using N assms(2) by (simp add: compute_current_tool_def Let_def)
qed

lemma example_bay_cases: "0 \<le> i \<and> i < (3::int) \<Longrightarrow> i = 0 \<or> i = 1 \<or> i = 2"
  by arith

theorem compute_current_tool_noninterference_witness:
  "state example_watch_extra ''x'' = Some 7 \<and> state example_watch ''x'' = None \<and>
   compute_current_tool example_watch_extra = compute_current_tool example_watch"
proof -
  have t: "t_indices example_watch_extra = t_indices example_watch"
    by (simp add: example_watch_extra_def)
  have e: "state_get (state example_watch_extra) ''e'' = state_get (state example_watch) ''e''"
    by (simp add: example_watch_extra_def state_get_def)
  have b: "\<forall>i. 0 \<le> i \<and> i < tool_count example_watch_extra \<longrightarrow>
      state_get (state example_watch_extra) (''t'' @ fmt_d i) =
      state_get (state example_watch) (''t'' @ fmt_d i)"
  proof (intro allI impI)
    fix i :: int
    assume "0 \<le> i \<and> i < tool_count example_watch_extra"
    then have "0 \<le> i \<and> i < 3"
      by (simp add: tool_count_def example_watch_extra_def example_watch_def)
    then have "i = 0 \<or> i = 1 \<or> i = 2"
      by (rule example_bay_cases)
    then show "state_get (state example_watch_extra) (''t'' @ fmt_d i) =
        state_get (state example_watch) (''t'' @ fmt_d i)"
      by (auto simp: example_watch_extra_def state_get_def fmt_d_small)
  qed
  show ?thesis
    using compute_current_tool_noninterference [OF t e b]
    by (simp add: example_watch_extra_def example_state)
qed

subsection \<open>Sensor edges\<close>

lemma step_state_other:
  "(\<forall>s. ev \<noteq> Edge l s) \<Longrightarrow> state (step env ev w) l = state w l"
  by (cases ev) (auto split: option.splits timer_kind.splits)

lemma run_state_other:
  "\<forall>(env, ev) \<in> set evs. \<forall>s. ev \<noteq> Edge l s \<Longrightarrow> state (run w evs) l = state w l"
proof (induction evs arbitrary: w)
  case Nil
  show ?case by simp
next
  case (Cons a evs)
  obtain env ev where a: "a = (env, ev)" by (cases a)
  from Cons.prems a have "\<forall>s. ev \<noteq> Edge l s" and "\<forall>(env, ev) \<in> set evs. \<forall>s. ev \<noteq> Edge l s"
    by auto
  then show ?case
    using Cons.IH [of "step env ev w"] by (simp add: a step_state_other)
qed

text \<open>
  Claim C5. A delivery of the level that is already stored for its label is a no-op: the
  whole object, with its store, its timer handle and the reactor's timers, is left as
  it was, so no recomputation is scheduled. Hence the second of two deliveries of the
  same label and level does nothing, directly after the first or after any events that
  deliver nothing for this label.
\<close>

theorem cb_duplicate_noop:
  "(state w l = Some s \<longrightarrow> cb l t s w = w) \<and>
   cb l t' s (cb l t s w) = cb l t s w \<and>
   ((\<forall>(env, ev) \<in> set evs. \<forall>s'. ev \<noteq> Edge l s') \<longrightarrow>
      step env2 (Edge l s) (run (step env1 (Edge l s) w) evs) = run (step env1 (Edge l s) w) evs)"
proof (intro conjI impI)
  show "cb l t s w = w" if "state w l = Some s"
    using that by (simp add: cb_def)
  show "cb l t' s (cb l t s w) = cb l t s w"
    by (simp add: cb_def)
  assume quiet: "\<forall>(env, ev) \<in> set evs. \<forall>s'. ev \<noteq> Edge l s'"
  have "state (run (step env1 (Edge l s) w) evs) l = state (step env1 (Edge l s) w) l"
    using quiet by (rule run_state_other)
  then have "state (run (step env1 (Edge l s) w) evs) l = Some s"
    by simp
  then show "step env2 (Edge l s) (run (step env1 (Edge l s) w) evs) = run (step env1 (Edge l s) w) evs"
    by (simp add: cb_def)
qed

theorem cb_duplicate_noop_witness:
  "state example_watch ''t1'' = Some 0 \<and>
   cb ''t1'' 5 0 example_watch = example_watch \<and>
   step (env_of ''ready'' ''standby'') (Edge ''t1'' 1)
     (run (step (env_of ''ready'' ''standby'') (Edge ''t1'' 1) example_watch)
        [(env_of ''ready'' ''standby'', Tick 1), (env_of ''ready'' ''standby'', Edge ''e'' 0)]) =
   run (step (env_of ''ready'' ''standby'') (Edge ''t1'' 1) example_watch)
     [(env_of ''ready'' ''standby'', Tick 1), (env_of ''ready'' ''standby'', Edge ''e'' 0)]"
  using cb_duplicate_noop [of example_watch "''t1''" 0 5 5 "[]"]
    cb_duplicate_noop [of example_watch "''t1''" 1 0 0
      "[(env_of ''ready'' ''standby'', Tick 1), (env_of ''ready'' ''standby'', Edge ''e'' 0)]"
      "env_of ''ready'' ''standby''" "env_of ''ready'' ''standby''"]
  by (simp add: example_state)

subsection \<open>Construction\<close>

text \<open>
  Claim C8. Construction raises the configuration error exactly when the section has
  no option whose name starts with \<^verbatim>\<open>pin_\<close>, and then no object exists; with at least
  one such option it returns the object.
\<close>

theorem init_requires_pin:
  "(init add cfg t0 = Inl (ConfigError ''pin_watch: no pins found. Add pin_<name>: <pin> options.''))
     = (\<forall>opt \<in> set (map fst (cfg_options cfg)). \<not> startswith opt ''pin_'') \<and>
   (\<exists>w. init add cfg t0 = Inr w) = (\<exists>opt \<in> set (map fst (cfg_options cfg)). startswith opt ''pin_'')"
  by (auto simp: init_def get_prefix_options_def Let_def filter_empty_conv)

lemma parse_t_index_examples: "parse_t_index ''t0'' = Some 0" "parse_t_index ''e'' = None"
  by (simp_all add: parse_t_index_def py_int_def strip_def is_space_def parse_digits_def
      digit_val_def Let_def upt_rec)

lemma init_one_bay: "init (+) (config_one_bay d) 0 = Inr (one_bay d)"
  by (simp add: init_def config_one_bay_def one_bay_def get_prefix_options_def startswith_def
      add_pin_def parse_t_index_examples schedule_compute_def register_timer_def Let_def)

theorem init_requires_pin_witness:
  "init (+) config_no_pin 0 = Inl (ConfigError ''pin_watch: no pins found. Add pin_<name>: <pin> options.'') \<and>
   (\<exists>w. init (+) (config_one_bay 0) 0 = Inr w)"
  using init_requires_pin [of "(+)" config_no_pin 0] init_requires_pin [of "(+)" "config_one_bay 0" 0]
  by (simp add: config_no_pin_def config_one_bay_def startswith_def)

subsection \<open>The exported status\<close>

lemma compute_current_tool_range:
  "fst (compute_current_tool w) = - 2 \<or> fst (compute_current_tool w) = - 1 \<or>
   (0 \<le> fst (compute_current_tool w) \<and> fst (compute_current_tool w) < tool_count w)"
proof -
  define N where "N = tool_count w"
  define em where "em = filter (\<lambda>i. state_get (state w) (''t'' @ fmt_d i) = 0) (map int [0 ..< nat N])"
  have loop: "bay_loop (state w) N b =
      (if \<exists>i \<in> set (map int [0 ..< nat N]). state_get (state w) (''t'' @ fmt_d i) \<notin> {0, 1} then 1 else b,
       sum_list (map (\<lambda>i. state_get (state w) (''t'' @ fmt_d i)) (map int [0 ..< nat N])),
       int (length em), if em = [] then - 1 else last em)" for b
    unfolding bay_loop_def bay_loop_fold em_def ..
  have "last em \<in> set em" if "em \<noteq> []"
    using that by simp
  then have "0 \<le> last em \<and> last em < N" if "em \<noteq> []"
    using that unfolding em_def by fastforce
  then show ?thesis
    unfolding compute_current_tool_fst N_def [symmetric] loop
    by (cases "em = []") auto
qed

lemma tool_count_cong: "t_indices w' = t_indices w \<Longrightarrow> tool_count w' = tool_count w"
  by (simp add: tool_count_def)

lemma step_tool_in_range: "tool_in_range w \<Longrightarrow> tool_in_range (step env ev w)"
proof (cases ev)
  case (Edge l s)
  assume "tool_in_range w"
  then show ?thesis
    by (simp add: Edge tool_in_range_def tool_count_cong [of "cb l (reactor_now w) s w" w])
next
  case (Fire h)
  assume ok: "tool_in_range w"
  show ?thesis
  proof (cases "due h w")
    case None
    with ok show ?thesis by (simp add: Fire)
  next
    case (Some k)
    show ?thesis
    proof (cases k)
      case ComputeTimer
      have "tool_count (compute_timer_cb env (reactor_now w) (unregister_timer h w)) = tool_count w"
        by (rule tool_count_cong) simp
      moreover have "compute_current_tool (unregister_timer h w) = compute_current_tool w"
        by (rule compute_current_tool_cong) simp_all
      ultimately show ?thesis
        using compute_current_tool_range [of w]
        by (simp add: Fire Some ComputeTimer tool_in_range_def)
    next
      case TcTimer
      have "tool_count (tc_timer_cb env (reactor_now w) (unregister_timer h w)) = tool_count w"
        by (rule tool_count_cong) simp
      with ok show ?thesis
        by (simp add: Fire Some TcTimer tool_in_range_def)
    qed
  qed
next
  case (Tick d)
  assume "tool_in_range w"
  then show ?thesis
    by (simp add: Tick tool_in_range_def
        tool_count_cong [of "w\<lparr>reactor_now := reactor_now w + d\<rparr>" w])
qed

lemma run_tool_in_range: "tool_in_range w \<Longrightarrow> tool_in_range (run w evs)"
  by (induction evs arbitrary: w) (auto simp: step_tool_in_range)

lemma add_pin_frame [simp]:
  "current_tool (add_pin opt w) = current_tool w"
  "pending_tc_ct (add_pin opt w) = pending_tc_ct w"
  "tc_timer (add_pin opt w) = tc_timer w"
  "compute_timer (add_pin opt w) = compute_timer w"
  "gcode_cmds (add_pin opt w) = gcode_cmds w"
  "reactor_now (add_pin opt w) = reactor_now w"
  "reactor_timers (add_pin opt w) = reactor_timers w"
  "reactor_next (add_pin opt w) = reactor_next w"
  "sync_toolchanger (add_pin opt w) = sync_toolchanger w"
  "assign_delay (add_pin opt w) = assign_delay w"
  "float_add (add_pin opt w) = float_add w"
  by (simp_all add: add_pin_def Let_def split: option.splits)

lemma fold_add_pin_frame [simp]:
  "current_tool (fold add_pin opts w) = current_tool w"
  "pending_tc_ct (fold add_pin opts w) = pending_tc_ct w"
  "tc_timer (fold add_pin opts w) = tc_timer w"
  "compute_timer (fold add_pin opts w) = compute_timer w"
  "gcode_cmds (fold add_pin opts w) = gcode_cmds w"
  "reactor_now (fold add_pin opts w) = reactor_now w"
  "reactor_timers (fold add_pin opts w) = reactor_timers w"
  "reactor_next (fold add_pin opts w) = reactor_next w"
  "sync_toolchanger (fold add_pin opts w) = sync_toolchanger w"
  "assign_delay (fold add_pin opts w) = assign_delay w"
  "float_add (fold add_pin opts w) = float_add w"
  by (induction opts arbitrary: w) simp_all

lemma init_fields:
  assumes "init add cfg t0 = Inr w"
  shows "current_tool w = - 2" "pending_tc_ct w = None" "tc_timer w = None" "gcode_cmds w = []"
    "reactor_now w = t0"
  using assms by (auto simp: init_def Let_def split: if_splits)

text \<open>
  Claim C9. In every execution of a constructed watcher the cached \<open>current_tool\<close> is
  -2, -1 or a bay index from 0 up to, not including, the tool count; \<^verbatim>\<open>get_status\<close>
  returns this cached integer and leaves the object as it is.
\<close>

theorem current_tool_range:
  assumes "init add cfg t0 = Inr w0"
  shows "(current_tool (run w0 evs) = - 2 \<or> current_tool (run w0 evs) = - 1 \<or>
          (0 \<le> current_tool (run w0 evs) \<and> current_tool (run w0 evs) < tool_count (run w0 evs))) \<and>
         get_status t (run w0 evs) = ([(''current_tool'', current_tool (run w0 evs))], run w0 evs)"
proof -
  have "tool_in_range w0"
    using init_fields(1) [OF assms] by (simp add: tool_in_range_def)
  then have "tool_in_range (run w0 evs)"
    by (rule run_tool_in_range)
  then show ?thesis
    by (simp add: tool_in_range_def get_status_def)
qed

lemmas eval_defs = due_def cb_def schedule_compute_def register_timer_def
  unregister_timer_def compute_timer_cb_def tc_timer_cb_def request_toolchanger_sync_def
  sync_toolchanger_or_defer_def do_toolchanger_sync_def run_cmd_def toolchanger_busy_def
  is_printing_def BUSY_STATUSES_def env_of_def compute_current_tool_def tool_count_def
  bay_loop_def bay_step_def state_get_def Let_def fmt_d_def digits.simps digit_char_def

theorem current_tool_range_witness:
  "init (+) (config_one_bay 0) 0 = Inr (one_bay 0) \<and>
   current_tool (run (one_bay 0)
     [(env_of ''ready'' ''standby'', Edge ''e'' 1), (env_of ''ready'' ''standby'', Fire 1)]) = 0 \<and>
   tool_count (run (one_bay 0)
     [(env_of ''ready'' ''standby'', Edge ''e'' 1), (env_of ''ready'' ''standby'', Fire 1)]) = 1 \<and>
   fst (get_status 7 (run (one_bay 0)
     [(env_of ''ready'' ''standby'', Edge ''e'' 1), (env_of ''ready'' ''standby'', Fire 1)])) =
     [(''current_tool'', 0)]"
  using current_tool_range [OF init_one_bay, of 0
      "[(env_of ''ready'' ''standby'', Edge ''e'' 1), (env_of ''ready'' ''standby'', Fire 1)]" 7]
  by (simp add: init_one_bay one_bay_def eval_defs)

subsection \<open>Commands\<close>

lemma do_toolchanger_sync_cmds:
  "gcode_cmds (do_toolchanger_sync ct w) =
     gcode_cmds w @ [if 0 \<le> ct then ''INITIALIZE_TOOLCHANGER T='' @ fmt_d ct else ''UNSELECT_TOOL'']"
  by (simp add: do_toolchanger_sync_def run_cmd_def)

lemma sync_toolchanger_or_defer_cmds:
  "gcode_cmds (sync_toolchanger_or_defer env ct w) =
     (if toolchanger_busy env then gcode_cmds w else gcode_cmds (do_toolchanger_sync ct w))"
  by (simp add: sync_toolchanger_or_defer_def register_timer_def Let_def split: option.splits)

lemma request_toolchanger_sync_cmds:
  "gcode_cmds (request_toolchanger_sync env ct w) =
     (if toolchanger_busy env \<or> (is_printing env \<and> ct < 0) then gcode_cmds w
      else gcode_cmds (do_toolchanger_sync ct w))"
  by (simp add: request_toolchanger_sync_def sync_toolchanger_or_defer_cmds)

lemma tc_timer_cb_cmds:
  "gcode_cmds (tc_timer_cb env t w) =
     (case pending_tc_ct w of
        None \<Rightarrow> gcode_cmds w
      | Some ct \<Rightarrow> if toolchanger_busy env then gcode_cmds w
                  else gcode_cmds w @ [if 0 \<le> ct then ''INITIALIZE_TOOLCHANGER T='' @ fmt_d ct else ''UNSELECT_TOOL''])"
  by (simp add: tc_timer_cb_def register_timer_def do_toolchanger_sync_cmds Let_def split: option.splits)

lemma compute_timer_cb_cmds:
  "gcode_cmds (compute_timer_cb env t w) =
     (if sync_toolchanger w
      then gcode_cmds (request_toolchanger_sync env (fst (compute_current_tool w)) w)
      else gcode_cmds w)"
proof -
  have "compute_current_tool (w\<lparr>compute_timer := None\<rparr>) = compute_current_tool w"
    by (rule compute_current_tool_cong) simp_all
  then show ?thesis
    by (simp add: compute_timer_cb_def Let_def request_toolchanger_sync_cmds
        do_toolchanger_sync_cmds split: prod.splits)
qed

lemma step_known_commands:
  assumes "\<forall>c \<in> set (gcode_cmds w). known_command c"
  shows "\<forall>c \<in> set (gcode_cmds (step env ev w)). known_command c"
proof (cases ev)
  case (Edge l s)
  with assms show ?thesis by simp
next
  case (Tick d)
  with assms show ?thesis by simp
next
  case (Fire h)
  show ?thesis
  proof (cases "due h w")
    case None
    with assms show ?thesis by (simp add: Fire)
  next
    case (Some k)
    with assms show ?thesis
      by (cases k)
        (auto simp: Fire compute_timer_cb_cmds request_toolchanger_sync_cmds tc_timer_cb_cmds
          do_toolchanger_sync_cmds known_command_def split: option.splits if_splits)
  qed
qed

lemma run_known_commands:
  "\<forall>c \<in> set (gcode_cmds w). known_command c \<Longrightarrow> \<forall>c \<in> set (gcode_cmds (run w evs)). known_command c"
proof (induction evs arbitrary: w)
  case Nil
  then show ?case by simp
next
  case (Cons a evs)
  obtain env ev where a: "a = (env, ev)" by (cases a)
  show ?case
    using Cons.IH [OF step_known_commands [OF Cons.prems, of env ev]] by (simp add: a)
qed

text \<open>
  Claim C7, with the busy tool-changer set apart. While \<^verbatim>\<open>print_stats\<close> does not report
  printing, the dispatcher passes every inferred value on, whatever it is. With the
  tool-changer not busy the call emits one command and changes nothing else:
  \<^verbatim>\<open>INITIALIZE_TOOLCHANGER T=<n>\<close> for a bay index \<open>n\<close>, \<^verbatim>\<open>UNSELECT_TOOL\<close> for -1 and -2;
  so does a whole inference pass. With the tool-changer busy the call emits nothing and
  the value becomes the pending target, in place of any earlier one. No execution of a
  constructed watcher ever emits a command of another form.
\<close>

theorem not_printing_mirrors:
  assumes "\<not> is_printing env"
  shows "request_toolchanger_sync env ct w = sync_toolchanger_or_defer env ct w \<and>
         (\<not> toolchanger_busy env \<longrightarrow>
            request_toolchanger_sync env ct w =
              w\<lparr>gcode_cmds := gcode_cmds w @
                  [if 0 \<le> ct then ''INITIALIZE_TOOLCHANGER T='' @ fmt_d ct else ''UNSELECT_TOOL'']\<rparr>) \<and>
         (toolchanger_busy env \<longrightarrow>
            gcode_cmds (request_toolchanger_sync env ct w) = gcode_cmds w \<and>
            pending_tc_ct (request_toolchanger_sync env ct w) = Some ct) \<and>
         (sync_toolchanger w \<and> \<not> toolchanger_busy env \<longrightarrow>
            current_tool (compute_timer_cb env t w) = fst (compute_current_tool w) \<and>
            gcode_cmds (compute_timer_cb env t w) = gcode_cmds w @
              [if 0 \<le> fst (compute_current_tool w)
               then ''INITIALIZE_TOOLCHANGER T='' @ fmt_d (fst (compute_current_tool w))
               else ''UNSELECT_TOOL'']) \<and>
         (init add cfg t0 = Inr w0 \<longrightarrow>
            (\<forall>c \<in> set (gcode_cmds (run w0 evs)).
               c = ''UNSELECT_TOOL'' \<or> (\<exists>n \<ge> 0. c = ''INITIALIZE_TOOLCHANGER T='' @ fmt_d n)))"
proof (intro conjI impI)
  show "request_toolchanger_sync env ct w = sync_toolchanger_or_defer env ct w"
    using assms by (simp add: request_toolchanger_sync_def)
  show "request_toolchanger_sync env ct w =
      w\<lparr>gcode_cmds := gcode_cmds w @
          [if 0 \<le> ct then ''INITIALIZE_TOOLCHANGER T='' @ fmt_d ct else ''UNSELECT_TOOL'']\<rparr>"
    if "\<not> toolchanger_busy env"
    using assms that
    by (simp add: request_toolchanger_sync_def sync_toolchanger_or_defer_def
        do_toolchanger_sync_def run_cmd_def)
  show "gcode_cmds (request_toolchanger_sync env ct w) = gcode_cmds w"
    if "toolchanger_busy env"
    using that by (simp add: request_toolchanger_sync_cmds)
  show "pending_tc_ct (request_toolchanger_sync env ct w) = Some ct"
    if "toolchanger_busy env"
    using assms that
    by (simp add: request_toolchanger_sync_def sync_toolchanger_or_defer_def register_timer_def
        Let_def split: option.splits)
  show "current_tool (compute_timer_cb env t w) = fst (compute_current_tool w)"
    by simp
  show "gcode_cmds (compute_timer_cb env t w) = gcode_cmds w @
      [if 0 \<le> fst (compute_current_tool w)
       then ''INITIALIZE_TOOLCHANGER T='' @ fmt_d (fst (compute_current_tool w))
       else ''UNSELECT_TOOL'']"
    if "sync_toolchanger w \<and> \<not> toolchanger_busy env"
    using assms that
    by (simp add: compute_timer_cb_cmds request_toolchanger_sync_cmds do_toolchanger_sync_cmds)
  show "\<forall>c \<in> set (gcode_cmds (run w0 evs)).
      c = ''UNSELECT_TOOL'' \<or> (\<exists>n \<ge> 0. c = ''INITIALIZE_TOOLCHANGER T='' @ fmt_d n)"
    if "init add cfg t0 = Inr w0"
  proof -
    from that have "gcode_cmds w0 = []"
      by (rule init_fields)
    then have "\<forall>c \<in> set (gcode_cmds w0). known_command c"
      by simp
    then have "\<forall>c \<in> set (gcode_cmds (run w0 evs)). known_command c"
      by (rule run_known_commands)
    then show ?thesis
      by (simp add: known_command_def)
  qed
qed

theorem not_printing_mirrors_witness:
  "\<not> is_printing (env_of ''ready'' ''standby'') \<and>
   \<not> toolchanger_busy (env_of ''ready'' ''standby'') \<and>
   gcode_cmds (request_toolchanger_sync (env_of ''ready'' ''standby'') 12 example_watch) =
     [''INITIALIZE_TOOLCHANGER T=12''] \<and>
   gcode_cmds (request_toolchanger_sync (env_of ''ready'' ''standby'') (- 1) example_watch) =
     [''UNSELECT_TOOL''] \<and>
   gcode_cmds (request_toolchanger_sync (env_of ''ready'' ''standby'') (- 2) example_watch) =
     [''UNSELECT_TOOL''] \<and>
   pending_tc_ct (request_toolchanger_sync (env_of ''changing'' ''standby'') 12 example_watch) = Some 12 \<and>
   init (+) (config_one_bay 0) 0 = Inr (one_bay 0) \<and>
   gcode_cmds (run (one_bay 0)
     [(env_of ''ready'' ''standby'', Edge ''e'' 1), (env_of ''ready'' ''standby'', Fire 1)]) =
     [''INITIALIZE_TOOLCHANGER T=0'']"
proof -
  have idle: "\<not> is_printing (env_of ''ready'' ''standby'')"
    by (simp add: is_printing_def env_of_def)
  have idle': "\<not> is_printing (env_of ''changing'' ''standby'')"
    by (simp add: is_printing_def env_of_def)
  have free: "\<not> toolchanger_busy (env_of ''ready'' ''standby'')"
    by (simp add: toolchanger_busy_def env_of_def BUSY_STATUSES_def)
  have busy: "toolchanger_busy (env_of ''changing'' ''standby'')"
    by (simp add: toolchanger_busy_def env_of_def BUSY_STATUSES_def)
  have twelve: "fmt_d 12 = ''12''"
    by (simp add: fmt_d_def digits.simps digit_char_def)
  have cmds: "gcode_cmds example_watch = []"
    by (simp add: example_watch_def)
  have run: "gcode_cmds (run (one_bay 0)
     [(env_of ''ready'' ''standby'', Edge ''e'' 1), (env_of ''ready'' ''standby'', Fire 1)]) =
     [''INITIALIZE_TOOLCHANGER T=0'']"
    by (simp add: one_bay_def eval_defs)
  have direct: "gcode_cmds (request_toolchanger_sync (env_of ''ready'' ''standby'') ct example_watch) =
      [if 0 \<le> ct then ''INITIALIZE_TOOLCHANGER T='' @ fmt_d ct else ''UNSELECT_TOOL'']" for ct
  proof -
    from not_printing_mirrors [OF idle, where ct = ct and w = example_watch] free
    have "request_toolchanger_sync (env_of ''ready'' ''standby'') ct example_watch =
        example_watch\<lparr>gcode_cmds := gcode_cmds example_watch @
          [if 0 \<le> ct then ''INITIALIZE_TOOLCHANGER T='' @ fmt_d ct else ''UNSELECT_TOOL'']\<rparr>"
      by blast
    then show ?thesis
      by (simp add: cmds)
  qed
  from not_printing_mirrors [OF idle', where ct = 12 and w = example_watch] busy
  have deferred: "pending_tc_ct (request_toolchanger_sync (env_of ''changing'' ''standby'') 12 example_watch) = Some 12"
    by blast
  from direct [of 12]
  have d12: "gcode_cmds (request_toolchanger_sync (env_of ''ready'' ''standby'') 12 example_watch) =
      [''INITIALIZE_TOOLCHANGER T=12'']"
    by (simp add: twelve)
  from direct [of "- 1"]
  have d1: "gcode_cmds (request_toolchanger_sync (env_of ''ready'' ''standby'') (- 1) example_watch) =
      [''UNSELECT_TOOL'']"
    by simp
  from direct [of "- 2"]
  have d2: "gcode_cmds (request_toolchanger_sync (env_of ''ready'' ''standby'') (- 2) example_watch) =
      [''UNSELECT_TOOL'']"
    by simp
  show ?thesis
    by (intro conjI idle free d12 d1 d2 deferred init_one_bay run)
qed

text \<open>
  Claim C7 as stated, one command for every decision made while not printing, fails
  when the tool-changer is busy at two decisions in a row. One bay, nothing printing,
  the tool-changer busy: the start-up pass infers Unknown and defers it; the engagement
  sensor rises and the next pass infers tool 0 and defers it in place of Unknown; the
  retry, with the tool-changer ready, emits the command for tool 0. Two decisions, one
  command, and nothing left to emit: \<^verbatim>\<open>UNSELECT_TOOL\<close> for the Unknown is never sent.
\<close>

theorem not_printing_mirrors_counterexample:
  "init (+) (config_one_bay 0) 0 = Inr (one_bay 0) \<and>
   \<not> is_printing busy_env \<and> \<not> is_printing idle_env \<and>
   current_tool (run (one_bay 0) [(busy_env, Fire 0)]) = - 2 \<and>
   pending_tc_ct (run (one_bay 0) [(busy_env, Fire 0)]) = Some (- 2) \<and>
   current_tool (run (one_bay 0)
     [(busy_env, Fire 0), (busy_env, Edge ''e'' 1), (busy_env, Fire 2)]) = 0 \<and>
   pending_tc_ct (run (one_bay 0)
     [(busy_env, Fire 0), (busy_env, Edge ''e'' 1), (busy_env, Fire 2)]) = Some 0 \<and>
   compute_passes (one_bay 0)
     [(busy_env, Fire 0), (busy_env, Edge ''e'' 1), (busy_env, Fire 2),
      (busy_env, Tick (1 / 8)), (idle_env, Fire 1)] = 2 \<and>
   gcode_cmds (run (one_bay 0)
     [(busy_env, Fire 0), (busy_env, Edge ''e'' 1), (busy_env, Fire 2),
      (busy_env, Tick (1 / 8)), (idle_env, Fire 1)]) = [''INITIALIZE_TOOLCHANGER T=0''] \<and>
   pending_tc_ct (run (one_bay 0)
     [(busy_env, Fire 0), (busy_env, Edge ''e'' 1), (busy_env, Fire 2),
      (busy_env, Tick (1 / 8)), (idle_env, Fire 1)]) = None \<and>
   reactor_timers (run (one_bay 0)
     [(busy_env, Fire 0), (busy_env, Edge ''e'' 1), (busy_env, Fire 2),
      (busy_env, Tick (1 / 8)), (idle_env, Fire 1)]) = []"
proof -
  define two where "two = [(busy_env, Fire 0), (busy_env, Edge ''e'' 1), (busy_env, Fire 2)]"
  define all where "all = [(busy_env, Fire 0), (busy_env, Edge ''e'' 1), (busy_env, Fire 2),
      (busy_env, Tick (1 / 8)), (idle_env, Fire 1)]"
  have p1: "\<not> is_printing busy_env" and p2: "\<not> is_printing idle_env"
    by (simp_all add: busy_env_def idle_env_def eval_defs)
  have c1: "current_tool (run (one_bay 0) [(busy_env, Fire 0)]) = - 2"
    by (simp add: one_bay_def busy_env_def eval_defs)
  have d1: "pending_tc_ct (run (one_bay 0) [(busy_env, Fire 0)]) = Some (- 2)"
    by (simp add: one_bay_def busy_env_def eval_defs)
  have c2: "current_tool (run (one_bay 0) two) = 0"
    by (simp add: two_def one_bay_def busy_env_def eval_defs)
  have d2: "pending_tc_ct (run (one_bay 0) two) = Some 0"
    by (simp add: two_def one_bay_def busy_env_def eval_defs)
  have n: "compute_passes (one_bay 0) all = 2"
    by (simp add: all_def one_bay_def busy_env_def idle_env_def fires_def eval_defs)
  have g: "gcode_cmds (run (one_bay 0) all) = [''INITIALIZE_TOOLCHANGER T=0'']"
    by (simp add: all_def one_bay_def busy_env_def idle_env_def eval_defs)
  have d3: "pending_tc_ct (run (one_bay 0) all) = None"
    by (simp add: all_def one_bay_def busy_env_def idle_env_def eval_defs)
  have r: "reactor_timers (run (one_bay 0) all) = []"
    by (simp add: all_def one_bay_def busy_env_def idle_env_def eval_defs)
  show ?thesis
    unfolding two_def [symmetric] all_def [symmetric]
    by (intro conjI init_one_bay p1 p2 c1 d1 c2 d2 n g d3 r)
qed

subsection \<open>Outstanding timers\<close>

lemma timers_rel_cong:
  "reactor_timers w' = reactor_timers w \<Longrightarrow> reactor_next w' = reactor_next w \<Longrightarrow>
   timers_rel c t w' = timers_rel c t w"
  by (simp add: timers_rel_def armed_def)

lemma timers_rel_update [simp]:
  "timers_rel c t (w\<lparr>state := a1\<rparr>) = timers_rel c t w"
  "timers_rel c t (w\<lparr>current_tool := a2\<rparr>) = timers_rel c t w"
  "timers_rel c t (w\<lparr>compute_timer := a3\<rparr>) = timers_rel c t w"
  "timers_rel c t (w\<lparr>pending_reason := a4\<rparr>) = timers_rel c t w"
  "timers_rel c t (w\<lparr>pending_tc_ct := a5\<rparr>) = timers_rel c t w"
  "timers_rel c t (w\<lparr>tc_timer := a6\<rparr>) = timers_rel c t w"
  "timers_rel c t (w\<lparr>reactor_now := a7\<rparr>) = timers_rel c t w"
  "timers_rel c t (w\<lparr>gcode_cmds := a8\<rparr>) = timers_rel c t w"
  by (simp_all add: timers_rel_def armed_def)

lemma armed_remove:
  "map fst (filter (\<lambda>t. fst (snd t) = k) (filter (\<lambda>t. fst t \<noteq> h) ts)) =
   filter (\<lambda>x. x \<noteq> h) (map fst (filter (\<lambda>t. fst (snd t) = k) ts))"
  by (induction ts) auto

lemma armed_unregister:
  "armed k (unregister_timer h w) = filter (\<lambda>x. x \<noteq> h) (armed k w)"
  by (simp add: armed_def unregister_timer_def armed_remove del: filter_filter)

lemma armed_other_kind:
  assumes "distinct (map fst (reactor_timers w))" and "h \<in> set (armed k w)" and "k' \<noteq> k"
  shows "h \<notin> set (armed k' w)"
proof
  assume "h \<in> set (armed k' w)"
  then obtain wt' where 1: "(h, k', wt') \<in> set (reactor_timers w)"
    by (force simp: armed_def)
  from assms(2) obtain wt where 2: "(h, k, wt) \<in> set (reactor_timers w)"
    by (force simp: armed_def)
  from eq_key_imp_eq_value [OF assms(1) 1 2] assms(3) show False
    by simp
qed

lemma filter_neq_id: "h \<notin> set xs \<Longrightarrow> filter (\<lambda>x. x \<noteq> h) xs = xs"
  by (induction xs) auto

lemma unregister_timers_rel:
  assumes "distinct (map fst (reactor_timers w))"
    and "\<forall>x \<in> set (reactor_timers w). fst x < reactor_next w"
    and "armed k w = [h]" and "k' \<noteq> k"
  shows "armed k (unregister_timer h w) = []"
    and "armed k' (unregister_timer h w) = armed k' w"
    and "distinct (map fst (reactor_timers (unregister_timer h w)))"
    and "\<forall>x \<in> set (reactor_timers (unregister_timer h w)). fst x < reactor_next (unregister_timer h w)"
proof -
  show "armed k (unregister_timer h w) = []"
    using assms(3) by (simp add: armed_unregister)
  have "h \<in> set (armed k w)"
    using assms(3) by simp
  from armed_other_kind [OF assms(1) this assms(4)]
  show "armed k' (unregister_timer h w) = armed k' w"
    by (simp add: armed_unregister filter_neq_id)
  show "distinct (map fst (reactor_timers (unregister_timer h w)))"
    using assms(1) by (simp add: unregister_timer_def distinct_map_filter)
  show "\<forall>x \<in> set (reactor_timers (unregister_timer h w)). fst x < reactor_next (unregister_timer h w)"
    using assms(2) by (simp add: unregister_timer_def)
qed

lemma unregister_compute:
  assumes "timers_rel (Some h) t w"
  shows "timers_rel None t (unregister_timer h w)"
  using assms unregister_timers_rel [of w ComputeTimer h TcTimer]
  by (simp add: timers_rel_def handles_def)

lemma unregister_tc:
  assumes "timers_rel c (Some h) w"
  shows "timers_rel c None (unregister_timer h w)"
  using assms unregister_timers_rel [of w TcTimer h ComputeTimer]
  by (simp add: timers_rel_def handles_def)

lemma register_compute:
  assumes "timers_rel None t w"
  shows "timers_rel (Some (reactor_next w)) t (snd (register_timer ComputeTimer wt w))"
  using assms by (force simp: timers_rel_def handles_def armed_def register_timer_def)

lemma register_tc:
  assumes "timers_rel c None w"
  shows "timers_rel c (Some (reactor_next w)) (snd (register_timer TcTimer wt w))"
  using assms by (force simp: timers_rel_def handles_def armed_def register_timer_def)

lemma due_armed:
  assumes "due h w = Some k"
  shows "h \<in> set (armed k w)"
proof -
  from assms obtain x where x: "find (\<lambda>t. fst t = h) (reactor_timers w) = Some x" and k: "fst (snd x) = k"
    by (auto simp: due_def split: option.splits if_splits)
  from x have "x \<in> set (reactor_timers w)" and "fst x = h"
    by (auto simp: find_Some_iff)
  with k show ?thesis
    by (force simp: armed_def)
qed

lemma due_fields:
  assumes "timers_inv w" and "due h w = Some k"
  shows "k = ComputeTimer \<Longrightarrow> compute_timer w = Some h" and "k = TcTimer \<Longrightarrow> tc_timer w = Some h"
  using due_armed [OF assms(2)] assms(1)
  by (auto simp: timers_inv_def timers_rel_def handles_def split: option.splits)


lemma timers_rel_register:
  assumes "timers_rel c t w"
  shows "c = None \<Longrightarrow>
           timers_rel (Some (reactor_next w)) t
             (w\<lparr>reactor_timers := reactor_timers w @ [(reactor_next w, ComputeTimer, wt)],
                reactor_next := Suc (reactor_next w)\<rparr>)"
    and "t = None \<Longrightarrow>
           timers_rel c (Some (reactor_next w))
             (w\<lparr>reactor_timers := reactor_timers w @ [(reactor_next w, TcTimer, wt)],
                reactor_next := Suc (reactor_next w)\<rparr>)"
  using assms by (force simp: timers_rel_def handles_def armed_def)+

lemma schedule_compute_inv:
  assumes "timers_inv w"
  shows "timers_inv (schedule_compute r d w)"
proof (cases "compute_timer w")
  case None
  with assms have "timers_rel None (tc_timer w) w"
    by (simp add: timers_inv_def)
  from timers_rel_register(1) [OF this refl, of "float_add w (reactor_now w) (max 0 d)"]
  show ?thesis
    by (simp add: timers_inv_def schedule_compute_def register_timer_def None
        timers_rel_def armed_def Let_def)
next
  case (Some h)
  with assms have "timers_rel (Some h) (tc_timer w) w"
    by (simp add: timers_inv_def)
  then have "timers_rel None (tc_timer w) (unregister_timer h w)"
    by (rule unregister_compute)
  from timers_rel_register(1) [OF this refl, of "float_add w (reactor_now w) (max 0 d)"]
  show ?thesis
    by (simp add: timers_inv_def schedule_compute_def register_timer_def Some unregister_timer_def
        timers_rel_def armed_def Let_def)
qed

lemma do_toolchanger_sync_inv: "timers_inv (do_toolchanger_sync ct w) = timers_inv w"
  by (simp add: timers_inv_def do_toolchanger_sync_def run_cmd_def)

lemma sync_toolchanger_or_defer_inv:
  assumes "timers_inv w"
  shows "timers_inv (sync_toolchanger_or_defer env ct w)"
proof (cases "toolchanger_busy env")
  case False
  with assms show ?thesis
    by (simp add: sync_toolchanger_or_defer_def do_toolchanger_sync_inv)
next
  case True
  show ?thesis
  proof (cases "tc_timer w")
    case None
    with assms have "timers_rel (compute_timer w) None w"
      by (simp add: timers_inv_def)
    from timers_rel_register(2) [OF this refl, of "float_add w (reactor_now w) (1 / 10)"]
    show ?thesis
      by (simp add: timers_inv_def sync_toolchanger_or_defer_def register_timer_def True None
          timers_rel_def armed_def Let_def)
  next
    case (Some h)
    with assms show ?thesis
      by (simp add: timers_inv_def sync_toolchanger_or_defer_def True Let_def)
  qed
qed

lemma request_toolchanger_sync_inv:
  "timers_inv w \<Longrightarrow> timers_inv (request_toolchanger_sync env ct w)"
  by (simp add: request_toolchanger_sync_def sync_toolchanger_or_defer_inv)

lemma tc_timer_cb_inv:
  assumes "timers_rel (compute_timer w) None w"
  shows "timers_inv (tc_timer_cb env t w)"
proof (cases "pending_tc_ct w")
  case None
  with assms show ?thesis
    by (simp add: timers_inv_def tc_timer_cb_def Let_def)
next
  case (Some ct)
  show ?thesis
  proof (cases "toolchanger_busy env")
    case True
    from timers_rel_register(2) [OF assms refl, of "float_add w (reactor_now w) (1 / 10)"]
    show ?thesis
      by (simp add: timers_inv_def tc_timer_cb_def register_timer_def Some True
          timers_rel_def armed_def Let_def)
  next
    case False
    with assms show ?thesis
      by (simp add: timers_inv_def tc_timer_cb_def Some do_toolchanger_sync_def run_cmd_def Let_def)
  qed
qed

lemma compute_timer_cb_inv:
  assumes "timers_rel None (tc_timer w) w"
  shows "timers_inv (compute_timer_cb env t w)"
proof -
  have "timers_inv (w\<lparr>compute_timer := None, current_tool := ct\<rparr>)" for ct
    using assms by (simp add: timers_inv_def)
  then show ?thesis
    by (simp add: compute_timer_cb_def Let_def request_toolchanger_sync_inv split: prod.splits)
qed

lemma step_inv:
  assumes "timers_inv w"
  shows "timers_inv (step env ev w)"
proof (cases ev)
  case (Edge l s)
  have "timers_inv (w\<lparr>state := st\<rparr>)" for st
    using assms by (simp add: timers_inv_def)
  then show ?thesis
    using assms by (simp add: Edge cb_def schedule_compute_inv)
next
  case (Tick d)
  with assms show ?thesis
    by (simp add: timers_inv_def)
next
  case (Fire h)
  show ?thesis
  proof (cases "due h w")
    case None
    with assms show ?thesis by (simp add: Fire)
  next
    case (Some k)
    show ?thesis
    proof (cases k)
      case ComputeTimer
      with due_fields(1) [OF assms Some] have "compute_timer w = Some h"
        by simp
      with assms have "timers_rel (Some h) (tc_timer w) w"
        by (simp add: timers_inv_def)
      then have "timers_rel None (tc_timer (unregister_timer h w)) (unregister_timer h w)"
        by (simp add: unregister_compute)
      then show ?thesis
        by (simp add: Fire Some ComputeTimer compute_timer_cb_inv)
    next
      case TcTimer
      with due_fields(2) [OF assms Some] have "tc_timer w = Some h"
        by simp
      with assms have "timers_rel (compute_timer w) (Some h) w"
        by (simp add: timers_inv_def)
      then have "timers_rel (compute_timer (unregister_timer h w)) None (unregister_timer h w)"
        by (simp add: unregister_tc)
      then show ?thesis
        by (simp add: Fire Some TcTimer tc_timer_cb_inv)
    qed
  qed
qed

lemma run_inv: "timers_inv w \<Longrightarrow> timers_inv (run w evs)"
proof (induction evs arbitrary: w)
  case Nil
  then show ?case by simp
next
  case (Cons a evs)
  obtain env ev where a: "a = (env, ev)" by (cases a)
  show ?case
    using Cons.IH [OF step_inv [OF Cons.prems, of env ev]] by (simp add: a)
qed

lemma init_inv:
  assumes "init add cfg t0 = Inr w"
  shows "timers_inv w"
proof -
  define w0 where "w0 = fold add_pin (get_prefix_options ''pin_'' cfg)
     \<lparr>sync_toolchanger = (cfg_sync_toolchanger cfg \<noteq> 0),
      assign_delay = cfg_assign_delay cfg, state = Map.empty, t_indices = {},
      current_tool = - 2, compute_timer = None, pending_reason = ''startup'',
      pending_tc_ct = None, tc_timer = None, reactor_now = t0, reactor_timers = [],
      reactor_next = 0, float_add = add, gcode_cmds = []\<rparr>"
  have "timers_inv w0"
    by (simp add: w0_def timers_inv_def timers_rel_def armed_def handles_def)
  then have "timers_inv (schedule_compute ''startup'' 0 w0)"
    by (rule schedule_compute_inv)
  moreover have "w = schedule_compute ''startup'' 0 w0"
    using assms by (simp add: init_def Let_def w0_def split: if_splits)
  ultimately show ?thesis by simp
qed

subsection \<open>Deferral and retry\<close>

text \<open>Deferral while busy, on any state that satisfies the invariant.\<close>

lemma defer_while_busy:
  assumes "timers_inv u" and "toolchanger_busy env"
  shows "gcode_cmds (sync_toolchanger_or_defer env ct u) = gcode_cmds u"
    and "pending_tc_ct (sync_toolchanger_or_defer env ct u) = Some ct"
    and "tc_timer (sync_toolchanger_or_defer env ct u) \<noteq> None"
    and "reactor_timers (sync_toolchanger_or_defer env ct u) =
           (if tc_timer u = None
            then reactor_timers u @ [(reactor_next u, TcTimer, float_add u (reactor_now u) (1 / 10))]
            else reactor_timers u)"
  using assms(2)
  by (simp_all add: sync_toolchanger_or_defer_def register_timer_def Let_def split: option.splits)

lemma armed_one:
  assumes "timers_inv w"
  shows "tc_timer w \<noteq> None \<Longrightarrow> length (armed TcTimer w) = 1"
    and "tc_timer w = None \<Longrightarrow> armed TcTimer w = []"
    and "compute_timer w \<noteq> None \<Longrightarrow> length (armed ComputeTimer w) = 1"
    and "compute_timer w = None \<Longrightarrow> armed ComputeTimer w = []"
  using assms by (auto simp: timers_inv_def timers_rel_def handles_def)

lemma busy_step:
  assumes "timers_inv w" and "pending_tc_ct w = Some ct" and "tc_timer w \<noteq> None"
    and "(\<exists>h. ev = Fire h) \<longrightarrow> toolchanger_busy env"
    and "\<not> fires ComputeTimer ev w"
  shows "pending_tc_ct (step env ev w) = Some ct \<and> tc_timer (step env ev w) \<noteq> None \<and>
         gcode_cmds (step env ev w) = gcode_cmds w"
proof (cases ev)
  case (Edge l s)
  with assms show ?thesis by simp
next
  case (Tick d)
  with assms show ?thesis by simp
next
  case (Fire h)
  with assms(4) have busy: "toolchanger_busy env" by simp
  show ?thesis
  proof (cases "due h w")
    case None
    with assms show ?thesis by (simp add: Fire)
  next
    case (Some k)
    with assms(5) have "k = TcTimer"
      by (cases k) (simp_all add: fires_def Fire)
    with Some assms(2) busy show ?thesis
      by (simp add: Fire tc_timer_cb_def register_timer_def Let_def)
  qed
qed

lemma busy_run:
  assumes "timers_inv w" and "pending_tc_ct w = Some ct" and "tc_timer w \<noteq> None"
    and "\<forall>(env, ev) \<in> set evs. (\<exists>h. ev = Fire h) \<longrightarrow> toolchanger_busy env"
    and "compute_passes w evs = 0"
  shows "pending_tc_ct (run w evs) = Some ct \<and> tc_timer (run w evs) \<noteq> None \<and>
         gcode_cmds (run w evs) = gcode_cmds w"
  using assms
proof (induction evs arbitrary: w)
  case Nil
  then show ?case by simp
next
  case (Cons a evs)
  obtain env ev where a: "a = (env, ev)" by (cases a)
  from Cons.prems(4) a have b: "(\<exists>h. ev = Fire h) \<longrightarrow> toolchanger_busy env"
    and rest: "\<forall>(env, ev) \<in> set evs. (\<exists>h. ev = Fire h) \<longrightarrow> toolchanger_busy env"
    by auto
  from Cons.prems(5) a have nf: "\<not> fires ComputeTimer ev w"
    and np: "compute_passes (step env ev w) evs = 0"
    by (auto split: if_splits)
  from busy_step [OF Cons.prems(1-3) b nf]
  have s: "pending_tc_ct (step env ev w) = Some ct" "tc_timer (step env ev w) \<noteq> None"
    "gcode_cmds (step env ev w) = gcode_cmds w"
    by simp_all
  from Cons.IH [OF step_inv [OF Cons.prems(1)] s(1) s(2) rest np] s(3)
  show ?case
    by (simp add: a)
qed

lemma retry_fire:
  assumes "timers_inv w" and "pending_tc_ct w = Some ct" and "due h w = Some TcTimer"
  shows "toolchanger_busy env \<Longrightarrow>
           gcode_cmds (step env (Fire h) w) = gcode_cmds w \<and>
           pending_tc_ct (step env (Fire h) w) = Some ct \<and>
           reactor_timers (step env (Fire h) w) =
             filter (\<lambda>x. fst x \<noteq> h) (reactor_timers w) @
               [(reactor_next w, TcTimer, float_add w (reactor_now w) (1 / 10))]"
    and "\<not> toolchanger_busy env \<Longrightarrow>
           gcode_cmds (step env (Fire h) w) =
             gcode_cmds w @ [if 0 \<le> ct then ''INITIALIZE_TOOLCHANGER T='' @ fmt_d ct else ''UNSELECT_TOOL''] \<and>
           pending_tc_ct (step env (Fire h) w) = None \<and>
           armed TcTimer (step env (Fire h) w) = []"
proof -
  show "gcode_cmds (step env (Fire h) w) = gcode_cmds w \<and>
        pending_tc_ct (step env (Fire h) w) = Some ct \<and>
        reactor_timers (step env (Fire h) w) =
          filter (\<lambda>x. fst x \<noteq> h) (reactor_timers w) @
            [(reactor_next w, TcTimer, float_add w (reactor_now w) (1 / 10))]"
    if "toolchanger_busy env"
    using that assms(2,3)
    by (simp add: tc_timer_cb_def register_timer_def unregister_timer_def Let_def)
  assume free: "\<not> toolchanger_busy env"
  have inv: "timers_inv (step env (Fire h) w)"
    using assms(1) by (rule step_inv)
  have "tc_timer (step env (Fire h) w) = None"
    using free assms(2,3) by (simp add: tc_timer_cb_def Let_def)
  with inv have "armed TcTimer (step env (Fire h) w) = []"
    by (rule armed_one(2))
  then show "gcode_cmds (step env (Fire h) w) =
             gcode_cmds w @ [if 0 \<le> ct then ''INITIALIZE_TOOLCHANGER T='' @ fmt_d ct else ''UNSELECT_TOOL''] \<and>
           pending_tc_ct (step env (Fire h) w) = None \<and>
           armed TcTimer (step env (Fire h) w) = []"
    using free assms(2,3)
    by (simp add: tc_timer_cb_cmds) (simp add: tc_timer_cb_def Let_def)
qed


text \<open>
  Claim C4. Take any execution of a constructed watcher and an inference pass in it
  that makes a dispatch decision while the tool-changer is busy. The pass emits nothing,
  stores the inferred tool as the pending target, and registers a retry timer for 0.1 s
  later unless one is outstanding; exactly one retry timer is outstanding afterwards.
  As long as no later pass decides anew and every timer fires while the tool-changer is
  busy, nothing is emitted, the pending target stays, and one retry timer stays
  outstanding; a retry that fires while busy registers the next retry for 0.1 s later.
  The first retry that fires with the tool-changer not busy emits exactly one command,
  the one for the stored target, clears the target and leaves no retry timer.
\<close>

theorem busy_defers_latest:
  assumes "init add cfg t0 = Inr w0"
    and "due hc (run w0 pre) = Some ComputeTimer"
    and "sync_toolchanger (run w0 pre)"
    and "\<not> is_printing env \<or> 0 \<le> fst (compute_current_tool (run w0 pre))"
    and "toolchanger_busy env"
    and "\<forall>(env', ev) \<in> set evs. (\<exists>h. ev = Fire h) \<longrightarrow> toolchanger_busy env'"
    and "compute_passes (step env (Fire hc) (run w0 pre)) evs = 0"
  shows "let w = run w0 pre;
             ct = fst (compute_current_tool w);
             w1 = step env (Fire hc) w;
             w2 = run w1 evs
         in gcode_cmds w1 = gcode_cmds w \<and>
            pending_tc_ct w1 = Some ct \<and>
            reactor_timers w1 =
              filter (\<lambda>x. fst x \<noteq> hc) (reactor_timers w) @
                (if tc_timer w = None then [(reactor_next w, TcTimer, float_add w (reactor_now w) (1 / 10))] else []) \<and>
            length (armed TcTimer w1) = 1 \<and>
            gcode_cmds w2 = gcode_cmds w \<and>
            pending_tc_ct w2 = Some ct \<and>
            length (armed TcTimer w2) = 1 \<and>
            (\<forall>h env'. due h w2 = Some TcTimer \<longrightarrow>
               (toolchanger_busy env' \<longrightarrow>
                  gcode_cmds (step env' (Fire h) w2) = gcode_cmds w \<and>
                  pending_tc_ct (step env' (Fire h) w2) = Some ct \<and>
                  reactor_timers (step env' (Fire h) w2) =
                    filter (\<lambda>x. fst x \<noteq> h) (reactor_timers w2) @
                      [(reactor_next w2, TcTimer, float_add w2 (reactor_now w2) (1 / 10))]) \<and>
               (\<not> toolchanger_busy env' \<longrightarrow>
                  gcode_cmds (step env' (Fire h) w2) =
                    gcode_cmds w @
                      [if 0 \<le> ct then ''INITIALIZE_TOOLCHANGER T='' @ fmt_d ct else ''UNSELECT_TOOL''] \<and>
                  pending_tc_ct (step env' (Fire h) w2) = None \<and>
                  armed TcTimer (step env' (Fire h) w2) = []))"
proof -
  define w where "w = run w0 pre"
  define ct where "ct = fst (compute_current_tool w)"
  define u where "u = (unregister_timer hc w)\<lparr>compute_timer := None, current_tool := ct\<rparr>"
  define w1 where "w1 = step env (Fire hc) w"
  define w2 where "w2 = run w1 evs"
  have inv: "timers_inv w"
    unfolding w_def using init_inv [OF assms(1)] by (rule run_inv)
  have due: "due hc w = Some ComputeTimer"
    using assms(2) by (simp add: w_def)
  have "compute_current_tool (unregister_timer hc w\<lparr>compute_timer := None\<rparr>) = compute_current_tool w"
    by (rule compute_current_tool_cong) simp_all
  then have "compute_timer_cb env (reactor_now w) (unregister_timer hc w) = request_toolchanger_sync env ct u"
    using assms(3) by (simp add: compute_timer_cb_def Let_def u_def ct_def w_def split: prod.splits)
  also have "\<dots> = sync_toolchanger_or_defer env ct u"
    using assms(4) by (auto simp: request_toolchanger_sync_def ct_def w_def)
  finally have w1: "w1 = sync_toolchanger_or_defer env ct u"
    by (simp add: w1_def due)
  have "compute_timer w = Some hc"
    using due_fields(1) [OF inv due] by simp
  with inv have "timers_rel (Some hc) (tc_timer w) w"
    by (simp add: timers_inv_def)
  then have "timers_rel None (tc_timer w) (unregister_timer hc w)"
    by (rule unregister_compute)
  then have inv_u: "timers_inv u"
    by (simp add: timers_inv_def u_def)
  have inv1: "timers_inv w1"
    unfolding w1_def using inv by (rule step_inv)
  note d = defer_while_busy [OF inv_u assms(5), of ct, folded w1]
  have c1: "gcode_cmds w1 = gcode_cmds w" and p1: "pending_tc_ct w1 = Some ct"
    and t1: "tc_timer w1 \<noteq> None"
    using d(1-3) by (simp_all add: u_def)
  have r1: "reactor_timers w1 =
      filter (\<lambda>x. fst x \<noteq> hc) (reactor_timers w) @
        (if tc_timer w = None then [(reactor_next w, TcTimer, float_add w (reactor_now w) (1 / 10))] else [])"
    using d(4) by (simp add: u_def unregister_timer_def)
  have a1: "length (armed TcTimer w1) = 1"
    using armed_one(1) [OF inv1 t1] .
  have np: "compute_passes w1 evs = 0"
    using assms(7) by (simp add: w1_def w_def)
  from busy_run [OF inv1 p1 t1 assms(6) np]
  have c2: "gcode_cmds w2 = gcode_cmds w" and p2: "pending_tc_ct w2 = Some ct"
    and t2: "tc_timer w2 \<noteq> None"
    by (simp_all add: w2_def c1)
  have inv2: "timers_inv w2"
    unfolding w2_def using inv1 by (rule run_inv)
  have a2: "length (armed TcTimer w2) = 1"
    using armed_one(1) [OF inv2 t2] .
  have fire: "(toolchanger_busy env' \<longrightarrow>
        gcode_cmds (step env' (Fire h) w2) = gcode_cmds w \<and>
        pending_tc_ct (step env' (Fire h) w2) = Some ct \<and>
        reactor_timers (step env' (Fire h) w2) =
          filter (\<lambda>x. fst x \<noteq> h) (reactor_timers w2) @
            [(reactor_next w2, TcTimer, float_add w2 (reactor_now w2) (1 / 10))]) \<and>
      (\<not> toolchanger_busy env' \<longrightarrow>
        gcode_cmds (step env' (Fire h) w2) =
          gcode_cmds w @
            [if 0 \<le> ct then ''INITIALIZE_TOOLCHANGER T='' @ fmt_d ct else ''UNSELECT_TOOL''] \<and>
        pending_tc_ct (step env' (Fire h) w2) = None \<and>
        armed TcTimer (step env' (Fire h) w2) = [])"
    if "due h w2 = Some TcTimer" for h env'
    using retry_fire [OF inv2 p2 that, of env'] by (simp only: c2) blast
  show ?thesis
    unfolding Let_def w_def [symmetric] ct_def [symmetric] w1_def [symmetric] w2_def [symmetric]
    using c1 p1 r1 a1 c2 p2 a2 fire by blast
qed


theorem busy_defers_latest_witness:
  "init (+) (config_one_bay 0) 0 = Inr (one_bay 0) \<and>
   toolchanger_busy busy_env \<and> \<not> toolchanger_busy idle_env \<and>
   pending_tc_ct (run (one_bay 0) [(busy_env, Fire 0), (busy_env, Edge ''e'' 1)]) = Some (- 2) \<and>
   fst (compute_current_tool (run (one_bay 0) [(busy_env, Fire 0), (busy_env, Edge ''e'' 1)])) = 0 \<and>
   gcode_cmds (step idle_env (Fire 3)
     (run (step busy_env (Fire 2) (run (one_bay 0) [(busy_env, Fire 0), (busy_env, Edge ''e'' 1)]))
        [(busy_env, Tick (1 / 10)), (busy_env, Fire 1), (busy_env, Tick (1 / 10))])) =
     [''INITIALIZE_TOOLCHANGER T=0'']"
proof -
  define pre where "pre = [(busy_env, Fire 0), (busy_env, Edge ''e'' 1)]"
  define evs where "evs = [(busy_env, Tick (1 / 10)), (busy_env, Fire 1), (busy_env, Tick (1 / 10))]"
  have busy: "toolchanger_busy busy_env"
    by (simp add: busy_env_def eval_defs)
  have free: "\<not> toolchanger_busy idle_env"
    by (simp add: idle_env_def eval_defs)
  have h2: "due 2 (run (one_bay 0) pre) = Some ComputeTimer"
    by (simp add: pre_def busy_env_def one_bay_def eval_defs)
  have h3: "sync_toolchanger (run (one_bay 0) pre)"
    by (simp add: pre_def busy_env_def one_bay_def eval_defs)
  have h4: "\<not> is_printing busy_env \<or> 0 \<le> fst (compute_current_tool (run (one_bay 0) pre))"
    by (simp add: busy_env_def eval_defs)
  have h6: "\<forall>(env', ev) \<in> set evs. (\<exists>h. ev = Fire h) \<longrightarrow> toolchanger_busy env'"
    by (simp add: evs_def busy)
  have h7: "compute_passes (step busy_env (Fire 2) (run (one_bay 0) pre)) evs = 0"
    by (simp add: pre_def evs_def busy_env_def one_bay_def fires_def eval_defs)
  have pend: "pending_tc_ct (run (one_bay 0) pre) = Some (- 2)"
    by (simp add: pre_def busy_env_def one_bay_def eval_defs)
  have ct: "fst (compute_current_tool (run (one_bay 0) pre)) = 0"
    by (simp add: pre_def busy_env_def one_bay_def eval_defs)
  have cmds: "gcode_cmds (run (one_bay 0) pre) = []"
    by (simp add: pre_def busy_env_def one_bay_def eval_defs)
  have d3: "due 3 (run (step busy_env (Fire 2) (run (one_bay 0) pre)) evs) = Some TcTimer"
    by (simp add: pre_def evs_def busy_env_def one_bay_def eval_defs)
  from busy_defers_latest [OF init_one_bay h2 h3 h4 busy h6 h7]
  have "gcode_cmds (step idle_env (Fire 3) (run (step busy_env (Fire 2) (run (one_bay 0) pre)) evs)) =
      gcode_cmds (run (one_bay 0) pre) @
        [if 0 \<le> fst (compute_current_tool (run (one_bay 0) pre))
         then ''INITIALIZE_TOOLCHANGER T='' @ fmt_d (fst (compute_current_tool (run (one_bay 0) pre)))
         else ''UNSELECT_TOOL'']"
    unfolding Let_def using d3 free by blast
  then have "gcode_cmds (step idle_env (Fire 3) (run (step busy_env (Fire 2) (run (one_bay 0) pre)) evs)) =
      [''INITIALIZE_TOOLCHANGER T=0'']"
    by (simp add: ct cmds fmt_d_small)
  then show ?thesis
    unfolding pre_def [symmetric] evs_def [symmetric]
    by (intro conjI init_one_bay busy free pend ct)
qed

subsection \<open>Coalescing of recomputations\<close>

lemma schedule_compute_timer:
  "compute_timer (schedule_compute r d w) = Some (reactor_next w)"
  "(reactor_next w, ComputeTimer, float_add w (reactor_now w) (max 0 d)) \<in> set (reactor_timers (schedule_compute r d w))"
  by (simp_all add: schedule_compute_def register_timer_def unregister_timer_def Let_def
      split: option.splits)

lemma before_due_Cons:
  "before_due w ((env, ev) # evs) = (before_due w [(env, ev)] \<and> before_due (step env ev w) evs)"
  by (cases ev) auto

lemma last_change_Cons:
  "last_change t w ((env, ev) # evs) = last_change (last_change t w [(env, ev)]) (step env ev w) evs"
  by (cases ev) auto

lemma settled_step:
  assumes "settled w" and "before_due w [(env, ev)]"
  shows "\<not> fires ComputeTimer ev w \<and> settled (step env ev w)"
proof -
  from assms(1) have inv: "timers_inv w" and none: "compute_timer w = None"
    and cur: "current_tool w = fst (compute_current_tool w)"
    by (simp_all add: settled_def)
  have inv': "timers_inv (step env ev w)"
    using inv by (rule step_inv)
  show ?thesis
  proof (cases ev)
    case (Edge l s)
    from none have "\<not> wake_ahead w"
      by (simp add: wake_ahead_def pending_wake_def)
    with assms(2) have "state w l = Some s"
      by (simp add: Edge)
    with assms(1) show ?thesis
      by (simp add: Edge fires_def cb_def)
  next
    case (Tick d)
    have "compute_current_tool (step env (Tick d) w) = compute_current_tool w"
      by (rule compute_current_tool_cong) simp_all
    with inv' none cur show ?thesis
      by (simp add: Tick fires_def settled_def)
  next
    case (Fire h)
    have nc: "due h w \<noteq> Some ComputeTimer"
      using due_fields(1) [OF inv, of h ComputeTimer] none by auto
    show ?thesis
    proof (cases "due h w")
      case None
      with assms(1) show ?thesis by (simp add: Fire fires_def)
    next
      case (Some k)
      with nc have k: "k = TcTimer" by (cases k) simp_all
      have "compute_current_tool (tc_timer_cb env (reactor_now w) (unregister_timer h w)) =
          compute_current_tool w"
        by (rule compute_current_tool_cong) simp_all
      with inv' none cur show ?thesis
        by (simp add: Fire Some k fires_def settled_def)
    qed
  qed
qed

lemma settled_run:
  assumes "settled w" and "before_due w evs"
  shows "compute_passes w evs = 0 \<and> settled (run w evs)"
  using assms
proof (induction evs arbitrary: w)
  case Nil
  then show ?case by simp
next
  case (Cons a evs)
  obtain env ev where a: "a = (env, ev)" by (cases a)
  from Cons.prems(2) have b1: "before_due w [(env, ev)]"
    and b2: "before_due (step env ev w) evs"
    unfolding a before_due_Cons [of w env ev evs] by simp_all
  from settled_step [OF Cons.prems(1) b1]
  have nf: "\<not> fires ComputeTimer ev w" and st: "settled (step env ev w)"
    by simp_all
  from Cons.IH [OF st b2] nf show ?case
    by (simp add: a)
qed

lemma tc_timer_cb_keeps_timers:
  "set (reactor_timers u) \<subseteq> set (reactor_timers (tc_timer_cb env t u))"
  by (auto simp: tc_timer_cb_def register_timer_def do_toolchanger_sync_def run_cmd_def Let_def
      split: option.splits)

lemma waiting_step:
  assumes "waiting w t"
  shows "(fires ComputeTimer ev w \<longrightarrow> settled (step env ev w)) \<and>
         (\<not> fires ComputeTimer ev w \<longrightarrow> waiting (step env ev w) (last_change t w [(env, ev)]))"
proof -
  from assms obtain hc where inv: "timers_inv w"
    and hc: "compute_timer w = Some hc"
    and tm: "(hc, ComputeTimer, float_add w t (max 0 (assign_delay w))) \<in> set (reactor_timers w)"
    by (auto simp: waiting_def)
  have inv': "timers_inv (step env ev w)"
    using inv by (rule step_inv)
  show ?thesis
  proof (cases ev)
    case (Edge l s)
    show ?thesis
    proof (cases "state w l = Some s")
      case True
      with assms show ?thesis
        by (simp add: Edge fires_def cb_def)
    next
      case False
      then have "step env ev w = schedule_compute l (assign_delay w) (w\<lparr>state := (state w)(l \<mapsto> s)\<rparr>)"
        by (simp add: Edge cb_def)
      with schedule_compute_timer [where r = l and d = "assign_delay w"
          and w = "w\<lparr>state := (state w)(l \<mapsto> s)\<rparr>"] inv' False
      show ?thesis
        by (simp add: Edge fires_def waiting_def)
    qed
  next
    case (Tick d)
    with inv' hc tm show ?thesis
      by (simp add: fires_def waiting_def)
  next
    case (Fire h)
    show ?thesis
    proof (cases "due h w")
      case None
      with assms show ?thesis
        by (simp add: Fire fires_def)
    next
      case (Some k)
      show ?thesis
      proof (cases k)
        case ComputeTimer
        have "compute_current_tool (compute_timer_cb env (reactor_now w) (unregister_timer h w)) =
            compute_current_tool (unregister_timer h w)"
          by (rule compute_current_tool_cong) simp_all
        with inv' show ?thesis
          by (simp add: Fire Some ComputeTimer fires_def settled_def)
      next
        case TcTimer
        have in_c: "hc \<in> set (armed ComputeTimer w)"
          using tm by (force simp: armed_def)
        from inv have dist: "distinct (map fst (reactor_timers w))"
          by (simp add: timers_inv_def timers_rel_def)
        have "hc \<notin> set (armed TcTimer w)"
          by (rule armed_other_kind [OF dist in_c]) simp
        moreover have "h \<in> set (armed TcTimer w)"
          using due_armed [OF Some] by (simp add: TcTimer)
        ultimately have "hc \<noteq> h" by auto
        with tm have "(hc, ComputeTimer, float_add w t (max 0 (assign_delay w)))
            \<in> set (reactor_timers (unregister_timer h w))"
          by (simp add: unregister_timer_def)
        with tc_timer_cb_keeps_timers
        have "(hc, ComputeTimer, float_add w t (max 0 (assign_delay w)))
            \<in> set (reactor_timers (tc_timer_cb env (reactor_now w) (unregister_timer h w)))"
          by blast
        with inv' hc show ?thesis
          by (simp add: Fire Some TcTimer fires_def waiting_def)
      qed
    qed
  qed
qed

lemma waiting_run:
  assumes "waiting w t" and "before_due w evs"
  shows "compute_passes w evs \<le> 1 \<and>
         (compute_passes w evs = 0 \<longrightarrow> waiting (run w evs) (last_change t w evs)) \<and>
         (compute_passes w evs = 1 \<longrightarrow> settled (run w evs))"
  using assms
proof (induction evs arbitrary: w t)
  case Nil
  then show ?case by simp
next
  case (Cons a evs)
  obtain env ev where a: "a = (env, ev)" by (cases a)
  from Cons.prems(2) have b2: "before_due (step env ev w) evs"
    unfolding a before_due_Cons [of w env ev evs] by simp
  note st = waiting_step [OF Cons.prems(1), of ev env]
  show ?case
  proof (cases "fires ComputeTimer ev w")
    case True
    with st have "settled (step env ev w)" by simp
    from settled_run [OF this b2] True show ?thesis
      by (simp add: a)
  next
    case False
    with st have "waiting (step env ev w) (last_change t w [(env, ev)])" by simp
    from Cons.IH [OF this b2] False show ?thesis
      by (simp add: a last_change_Cons [of t w env ev evs])
  qed
qed

lemma tc_timer_kept:
  assumes "tc_timer w \<noteq> None" and "\<not> fires TcTimer ev w"
  shows "tc_timer (step env ev w) = tc_timer w"
proof (cases ev)
  case (Edge l s)
  then show ?thesis by simp
next
  case (Tick d)
  then show ?thesis by simp
next
  case (Fire h)
  show ?thesis
  proof (cases "due h w")
    case None
    then show ?thesis by (simp add: Fire)
  next
    case (Some k)
    with assms(2) have "k = ComputeTimer"
      by (cases k) (simp_all add: fires_def Fire)
    with Some assms(1) show ?thesis
      by (auto simp: Fire compute_timer_cb_def request_toolchanger_sync_def
          sync_toolchanger_or_defer_def Let_def split: prod.splits)
  qed
qed

lemma armed_handles:
  assumes "timers_inv w"
  shows "armed ComputeTimer w = handles (compute_timer w)" and "armed TcTimer w = handles (tc_timer w)"
  using assms by (simp_all add: timers_inv_def timers_rel_def)

lemma armed_fresh:
  assumes "timers_inv w"
  shows "reactor_next w \<notin> set (armed k w)"
proof
  assume "reactor_next w \<in> set (armed k w)"
  then obtain x where "x \<in> set (reactor_timers w)" and "fst x = reactor_next w"
    by (auto simp: armed_def)
  with assms show False
    by (auto simp: timers_inv_def timers_rel_def)
qed

text \<open>
  Claim C6, for bursts in which every edge that changes the stored level arrives before
  the recompute timer of the change before it is due. In every execution of a
  constructed watcher at most one timer of each kind is outstanding. While a retry timer
  is outstanding, no event other than its own firing registers another. A delivery that
  changes the stored level removes the outstanding recompute timer, if any, and
  registers a new one, which is then the only one; its wake time is the floating-point
  sum of the clock and \<open>max 0 assign_delay\<close>, whatever that sum rounds to. Take a burst
  that starts with such a delivery and goes on with deliveries of which each one that
  changes the stored level arrives while the recompute timer is outstanding and not yet
  due, deliveries that repeat the stored level coming at any time: at most one inference
  pass runs in it; until it has run, exactly one recompute timer is outstanding, set
  to the sum of the clock at the last change and the delay; once it has run, no
  recompute timer is outstanding and the cached tool is the inference on the store as
  the last edge left it.
\<close>

theorem recompute_coalesces:
  assumes "init add cfg t0 = Inr w0"
  shows "let w = run w0 pre;
             w1 = step env (Edge l s) w;
             w2 = run w1 evs
         in length (armed ComputeTimer w) \<le> 1 \<and> length (armed TcTimer w) \<le> 1 \<and>
            (\<forall>h. armed TcTimer w = [h] \<and> \<not> fires TcTimer ev w \<longrightarrow>
                 armed TcTimer (step env' ev w) = [h]) \<and>
            (state w l \<noteq> Some s \<longrightarrow>
               reactor_next w \<notin> set (armed ComputeTimer w) \<and>
               armed ComputeTimer w1 = [reactor_next w] \<and>
               (reactor_next w, ComputeTimer, float_add w (reactor_now w) (max 0 (assign_delay w)))
                 \<in> set (reactor_timers w1)) \<and>
            (state w l \<noteq> Some s \<and> before_due w1 evs \<longrightarrow>
               compute_passes w1 evs \<le> 1 \<and>
               (compute_passes w1 evs = 0 \<longrightarrow>
                  (\<exists>h. armed ComputeTimer w2 = [h] \<and>
                     (h, ComputeTimer,
                      float_add w2 (last_change (reactor_now w) w1 evs) (max 0 (assign_delay w2)))
                       \<in> set (reactor_timers w2))) \<and>
               (compute_passes w1 evs = 1 \<longrightarrow>
                  armed ComputeTimer w2 = [] \<and>
                  current_tool w2 = fst (compute_current_tool w2)))"
proof -
  define w where "w = run w0 pre"
  define w1 where "w1 = step env (Edge l s) w"
  define w2 where "w2 = run w1 evs"
  have inv: "timers_inv w"
    unfolding w_def using init_inv [OF assms] by (rule run_inv)
  have inv1: "timers_inv w1"
    unfolding w1_def using inv by (rule step_inv)
  have a: "length (armed ComputeTimer w) \<le> 1 \<and> length (armed TcTimer w) \<le> 1"
    by (simp add: armed_handles [OF inv] handles_def split: option.splits)
  have c: "armed TcTimer (step env' ev w) = [h]"
    if "armed TcTimer w = [h] \<and> \<not> fires TcTimer ev w" for h
  proof -
    from that have "tc_timer w = Some h"
      by (simp add: armed_handles [OF inv] handles_def split: option.splits)
    with that have "tc_timer (step env' ev w) = Some h"
      by (simp add: tc_timer_kept)
    then show ?thesis
      by (simp add: armed_handles [OF step_inv [OF inv]] handles_def)
  qed
  have sched: "w1 = schedule_compute l (assign_delay w) (w\<lparr>state := (state w)(l \<mapsto> s)\<rparr>)"
    if "state w l \<noteq> Some s"
    using that by (simp add: w1_def cb_def)
  have b: "reactor_next w \<notin> set (armed ComputeTimer w) \<and>
      armed ComputeTimer w1 = [reactor_next w] \<and>
      (reactor_next w, ComputeTimer, float_add w (reactor_now w) (max 0 (assign_delay w)))
        \<in> set (reactor_timers w1)"
    if "state w l \<noteq> Some s"
    using schedule_compute_timer [where r = l and d = "assign_delay w"
        and w = "w\<lparr>state := (state w)(l \<mapsto> s)\<rparr>"]
    by (simp add: armed_handles [OF inv1] handles_def sched [OF that, symmetric] armed_fresh [OF inv])
  have d: "compute_passes w1 evs \<le> 1 \<and>
      (compute_passes w1 evs = 0 \<longrightarrow>
         (\<exists>h. armed ComputeTimer w2 = [h] \<and>
            (h, ComputeTimer,
             float_add w2 (last_change (reactor_now w) w1 evs) (max 0 (assign_delay w2)))
              \<in> set (reactor_timers w2))) \<and>
      (compute_passes w1 evs = 1 \<longrightarrow>
         armed ComputeTimer w2 = [] \<and> current_tool w2 = fst (compute_current_tool w2))"
    if "state w l \<noteq> Some s \<and> before_due w1 evs"
  proof -
    from that have ch: "state w l \<noteq> Some s" and bu: "before_due w1 evs"
      by simp_all
    have "compute_timer w1 = Some (reactor_next w)"
      using schedule_compute_timer(1) [where r = l and d = "assign_delay w"
          and w = "w\<lparr>state := (state w)(l \<mapsto> s)\<rparr>"]
      by (simp add: sched [OF ch, symmetric])
    moreover have "float_add w1 = float_add w" and "assign_delay w1 = assign_delay w"
      by (simp_all add: w1_def)
    ultimately have "waiting w1 (reactor_now w)"
      using inv1 b [OF ch] by (simp add: waiting_def)
    from waiting_run [OF this bu, folded w2_def]
    have le: "compute_passes w1 evs \<le> 1"
      and zero: "compute_passes w1 evs = 0 \<Longrightarrow> waiting w2 (last_change (reactor_now w) w1 evs)"
      and one: "compute_passes w1 evs = 1 \<Longrightarrow> settled w2"
      by simp_all
    have "\<exists>h. armed ComputeTimer w2 = [h] \<and>
        (h, ComputeTimer,
         float_add w2 (last_change (reactor_now w) w1 evs) (max 0 (assign_delay w2)))
          \<in> set (reactor_timers w2)"
      if "compute_passes w1 evs = 0"
      using zero [OF that] by (auto simp: waiting_def armed_handles handles_def)
    moreover have "armed ComputeTimer w2 = [] \<and> current_tool w2 = fst (compute_current_tool w2)"
      if "compute_passes w1 evs = 1"
      using one [OF that] by (auto simp: settled_def armed_handles handles_def)
    ultimately show ?thesis
      using le by blast
  qed
  show ?thesis
    unfolding Let_def w_def [symmetric] w1_def [symmetric] w2_def [symmetric]
    using a b c d by blast
qed

lemmas env_defs = idle_env_def busy_env_def printing_env_def printing_busy_env_def

text \<open>
  Claim C6 as stated, for any burst of edges less than \<open>assign_delay\<close> apart, fails
  when an edge repeats the stored level: the callback drops it without re-arming the
  timer. One bay, a delay of 1 s: \<^verbatim>\<open>t0\<close> rises at 0, \<^verbatim>\<open>e\<close> is delivered at 0.75 with the
  level 0 it already has, the recompute timer fires at 1.0, \<^verbatim>\<open>e\<close> rises at 1.5 and a
  second pass runs at 2.5: two passes for three edges that are 0.75 s apart. All the
  times are multiples of a quarter, so the sums are the same in binary floating point.
\<close>

theorem recompute_coalesces_counterexample:
  "init (+) (config_one_bay 1) 0 = Inr (one_bay 1) \<and>
   state (one_bay 1) ''t0'' \<noteq> Some 1 \<and>
   state (step idle_env (Edge ''t0'' 1) (one_bay 1)) ''e'' = Some 0 \<and>
   burst (step idle_env (Edge ''t0'' 1) (one_bay 1)) 0
     [(idle_env, Tick (3 / 4)), (idle_env, Edge ''e'' 0), (idle_env, Tick (1 / 4)),
      (idle_env, Fire 1), (idle_env, Tick (1 / 2)), (idle_env, Edge ''e'' 1),
      (idle_env, Tick 1), (idle_env, Fire 2)] \<and>
   compute_passes (step idle_env (Edge ''t0'' 1) (one_bay 1))
     [(idle_env, Tick (3 / 4)), (idle_env, Edge ''e'' 0), (idle_env, Tick (1 / 4)),
      (idle_env, Fire 1), (idle_env, Tick (1 / 2)), (idle_env, Edge ''e'' 1),
      (idle_env, Tick 1), (idle_env, Fire 2)] = 2"
  by (simp add: init_one_bay) (simp add: one_bay_def env_defs fires_def eval_defs)

theorem recompute_coalesces_witness:
  "init (+) (config_one_bay 1) 0 = Inr (one_bay 1) \<and>
   state (one_bay 1) ''e'' \<noteq> Some 1 \<and>
   before_due (step idle_env (Edge ''e'' 1) (one_bay 1))
     [(idle_env, Tick (1 / 2)), (idle_env, Edge ''t0'' 1), (idle_env, Tick (1 / 2)),
      (idle_env, Edge ''e'' 1), (idle_env, Tick (1 / 4)), (idle_env, Edge ''t0'' 0),
      (idle_env, Tick 1), (idle_env, Fire 3)] \<and>
   compute_passes (step idle_env (Edge ''e'' 1) (one_bay 1))
     [(idle_env, Tick (1 / 2)), (idle_env, Edge ''t0'' 1), (idle_env, Tick (1 / 2)),
      (idle_env, Edge ''e'' 1), (idle_env, Tick (1 / 4)), (idle_env, Edge ''t0'' 0),
      (idle_env, Tick 1), (idle_env, Fire 3)] = 1 \<and>
   current_tool (run (step idle_env (Edge ''e'' 1) (one_bay 1))
     [(idle_env, Tick (1 / 2)), (idle_env, Edge ''t0'' 1), (idle_env, Tick (1 / 2)),
      (idle_env, Edge ''e'' 1), (idle_env, Tick (1 / 4)), (idle_env, Edge ''t0'' 0),
      (idle_env, Tick 1), (idle_env, Fire 3)]) =
     fst (compute_current_tool (run (step idle_env (Edge ''e'' 1) (one_bay 1))
     [(idle_env, Tick (1 / 2)), (idle_env, Edge ''t0'' 1), (idle_env, Tick (1 / 2)),
      (idle_env, Edge ''e'' 1), (idle_env, Tick (1 / 4)), (idle_env, Edge ''t0'' 0),
      (idle_env, Tick 1), (idle_env, Fire 3)]))"
proof -
  define evs where "evs = [(idle_env, Tick (1 / 2)), (idle_env, Edge ''t0'' 1), (idle_env, Tick (1 / 2)),
      (idle_env, Edge ''e'' 1), (idle_env, Tick (1 / 4)), (idle_env, Edge ''t0'' 0),
      (idle_env, Tick 1), (idle_env, Fire 3)]"
  define w1 where "w1 = step idle_env (Edge ''e'' 1) (one_bay 1)"
  have ch: "state (one_bay 1) ''e'' \<noteq> Some 1"
    by (simp add: one_bay_def)
  have bu: "before_due w1 evs"
    by (simp add: w1_def evs_def one_bay_def env_defs wake_ahead_def pending_wake_def eval_defs)
  have one: "compute_passes w1 evs = 1"
    by (simp add: w1_def evs_def one_bay_def env_defs fires_def eval_defs)
  from recompute_coalesces [OF init_one_bay [of 1], where pre = "[]" and env = idle_env and l = "''e''"
      and s = 1 and evs = evs]
  have "current_tool (run w1 evs) = fst (compute_current_tool (run w1 evs))"
    unfolding Let_def run.simps w1_def [symmetric] using ch bu one by blast
  then show ?thesis
    unfolding evs_def [symmetric] w1_def [symmetric]
    by (intro conjI init_one_bay ch bu one)
qed

subsection \<open>Executions that the claims exclude\<close>

text \<open>
  Claim C2 says that \<^verbatim>\<open>UNSELECT_TOOL\<close> is never emitted while printing, also on the
  retry path. The retry callback does not ask whether a print is running. Here the
  start-up pass infers Unknown while nothing prints and the tool-changer is busy, so
  -2 is stored as pending; the print starts; the retry fires with the tool-changer
  ready and emits \<^verbatim>\<open>UNSELECT_TOOL\<close> during the print.
\<close>

theorem unselect_while_printing:
  "init (+) (config_one_bay 0) 0 = Inr (one_bay 0) \<and>
   \<not> is_printing busy_env \<and> is_printing printing_busy_env \<and> is_printing printing_env \<and>
   pending_tc_ct (run (one_bay 0) [(busy_env, Fire 0), (printing_busy_env, Tick (1 / 10))]) = Some (- 2) \<and>
   gcode_cmds (run (one_bay 0) [(busy_env, Fire 0), (printing_busy_env, Tick (1 / 10))]) = [] \<and>
   gcode_cmds (run (one_bay 0)
     [(busy_env, Fire 0), (printing_busy_env, Tick (1 / 10)), (printing_env, Fire 1)]) =
     [''UNSELECT_TOOL'']"
  by (simp add: init_one_bay) (simp add: one_bay_def env_defs eval_defs)

text \<open>
  Claim C3 says that every newer decision overwrites the pending target, so that no
  stale target is dispatched after a newer decision went out directly. The direct path
  leaves the pending target and the retry timer as they are. Here Unknown is deferred
  while the tool-changer is busy; the engagement sensor rises and the next pass, with
  the tool-changer ready, emits the command for tool 0; the pending target is still -2,
  and the retry emits \<^verbatim>\<open>UNSELECT_TOOL\<close> after it, while the cached tool is 0.
\<close>

theorem stale_pending_dispatched:
  "init (+) (config_one_bay 0) 0 = Inr (one_bay 0) \<and>
   pending_tc_ct (run (one_bay 0) [(busy_env, Fire 0), (busy_env, Edge ''e'' 1)]) = Some (- 2) \<and>
   gcode_cmds (run (one_bay 0)
     [(busy_env, Fire 0), (busy_env, Edge ''e'' 1), (idle_env, Fire 2)]) =
     [''INITIALIZE_TOOLCHANGER T=0''] \<and>
   pending_tc_ct (run (one_bay 0)
     [(busy_env, Fire 0), (busy_env, Edge ''e'' 1), (idle_env, Fire 2)]) = Some (- 2) \<and>
   gcode_cmds (run (one_bay 0)
     [(busy_env, Fire 0), (busy_env, Edge ''e'' 1), (idle_env, Fire 2),
      (idle_env, Tick (1 / 10)), (idle_env, Fire 1)]) =
     [''INITIALIZE_TOOLCHANGER T=0'', ''UNSELECT_TOOL''] \<and>
   current_tool (run (one_bay 0)
     [(busy_env, Fire 0), (busy_env, Edge ''e'' 1), (idle_env, Fire 2),
      (idle_env, Tick (1 / 10)), (idle_env, Fire 1)]) = 0"
  by (simp add: init_one_bay) (simp add: one_bay_def env_defs eval_defs)

end
